theory Spec2Isabelle
  imports Complex_Main "HOL-Library.Multiset" "HOL-Library.Char_ord" "HOL-Library.List_Lexorder"
begin

text \<open>
  A household-appliance energy calculator: appliances with a power and an on/off state
  (\<^verbatim>\<open>appliances.py\<close>), a calculator that totals energy and cost over a period
  (\<^verbatim>\<open>calculator.py\<close>) and a store of the computed records (\<^verbatim>\<open>database.py\<close>). The
  console dialogue (\<^verbatim>\<open>main.py\<close>) and the report writers (\<^verbatim>\<open>reporting.py\<close>) are not
  modelled.
\<close>

section \<open>Python floats\<close>

text \<open>
  A Python \<^verbatim>\<open>float\<close> is an IEEE 754 binary64 value: a finite number, an infinity or NaN.
  A finite float is given by the real number it denotes; the two zeros are not told apart
  (they compare equal in Python).
\<close>

datatype pyfloat = Finite real | PosInf | NegInf | NaN

text \<open>
  Rounding a real number to the nearest float, ties to the even mantissa. A number whose
  magnitude reaches \<open>2 ^ 1024 - 2 ^ 970\<close> (the largest float plus half a unit of its last
  place) rounds to an infinity. Below that the floats around \<open>x\<close> are the multiples of
  \<open>2 ^ (e - 52)\<close>, where \<open>2 ^ e \<le> \<bar>x\<bar> < 2 ^ (e + 1)\<close> and \<open>e\<close> is at least \<open>- 1022\<close>, the
  exponent of the subnormal numbers.
\<close>

definition overflow_threshold :: real where
  "overflow_threshold = 2 ^ 1024 - 2 ^ 970"

definition round_half_even :: "real \<Rightarrow> int" where
  "round_half_even y =
     (let f = \<lfloor>y\<rfloor>; d = y - of_int f
      in if d < 1 / 2 then f
         else if 1 / 2 < d then f + 1
         else if even f then f else f + 1)"

primrec exponent_search :: "nat \<Rightarrow> real \<Rightarrow> int" where
  "exponent_search 0 x = - 1022"
| "exponent_search (Suc k) x =
     (if 2 powi (int k - 1021) \<le> \<bar>x\<bar> then int k - 1021 else exponent_search k x)"

definition float_exponent :: "real \<Rightarrow> int" where
  "float_exponent x = exponent_search 2045 x"

definition to_double :: "real \<Rightarrow> pyfloat" where
  "to_double x =
     (if overflow_threshold \<le> \<bar>x\<bar> then (if 0 < x then PosInf else NegInf)
      else (let q = 2 powi (float_exponent x - 52)
            in Finite (of_int (round_half_even (x / q)) * q)))"

text \<open>
  The real number of a finite float, and the two constants of the rounding error: a float
  differs from the number it rounds by at most \<open>float_u\<close> times that number, or by
  \<open>float_eta\<close> among the subnormal numbers.
\<close>

fun fl_val :: "pyfloat \<Rightarrow> real" where
  "fl_val (Finite x) = x"
| "fl_val _ = 0"

definition float_u :: real where
  "float_u = 1 / 2 ^ 53"

definition float_eta :: real where
  "float_eta = 2 powi (- 1075)"

text \<open>The arithmetic of the floats: the exact result rounded, with the IEEE special cases.\<close>

fun fl_sgn :: "pyfloat \<Rightarrow> real" where
  "fl_sgn (Finite x) = sgn x"
| "fl_sgn PosInf = 1"
| "fl_sgn NegInf = - 1"
| "fl_sgn NaN = 0"

definition fl_add :: "pyfloat \<Rightarrow> pyfloat \<Rightarrow> pyfloat" where
  "fl_add a b =
     (if a = NaN \<or> b = NaN then NaN
      else (case (a, b) of
              (Finite x, Finite y) \<Rightarrow> to_double (x + y)
            | (Finite x, _) \<Rightarrow> b
            | (_, Finite y) \<Rightarrow> a
            | _ \<Rightarrow> (if a = b then a else NaN)))"

definition fl_mul :: "pyfloat \<Rightarrow> pyfloat \<Rightarrow> pyfloat" where
  "fl_mul a b =
     (if a = NaN \<or> b = NaN then NaN
      else (case (a, b) of
              (Finite x, Finite y) \<Rightarrow> to_double (x * y)
            | _ \<Rightarrow> (let s = fl_sgn a * fl_sgn b
                    in if s = 0 then NaN else if 0 < s then PosInf else NegInf)))"

text \<open>Division by a float that is not zero.\<close>

definition fl_div :: "pyfloat \<Rightarrow> pyfloat \<Rightarrow> pyfloat" where
  "fl_div a b =
     (if a = NaN \<or> b = NaN then NaN
      else (case (a, b) of
              (Finite x, Finite y) \<Rightarrow> to_double (x / y)
            | (Finite x, _) \<Rightarrow> Finite 0
            | (_, Finite y) \<Rightarrow> (if 0 < fl_sgn a * sgn y then PosInf else NegInf)
            | _ \<Rightarrow> NaN))"

fun fl_lt :: "pyfloat \<Rightarrow> pyfloat \<Rightarrow> bool" where
  "fl_lt (Finite x) (Finite y) = (x < y)"
| "fl_lt (Finite x) PosInf = True"
| "fl_lt NegInf (Finite y) = True"
| "fl_lt NegInf PosInf = True"
| "fl_lt _ _ = False"

definition fl_le :: "pyfloat \<Rightarrow> pyfloat \<Rightarrow> bool" where
  "fl_le a b = (fl_lt a b \<or> (a = b \<and> a \<noteq> NaN))"

text \<open>
  The built-in \<^verbatim>\<open>round(x, ndigits)\<close> on a float, for \<open>ndigits\<close> that is not negative: an
  infinity or NaN is returned as it is; a finite float is rounded, on its exact value, to
  the nearest multiple of \<open>10 ^ - ndigits\<close> (ties to the even one), and the float nearest
  to that decimal is returned.
\<close>

fun py_round :: "pyfloat \<Rightarrow> nat \<Rightarrow> pyfloat" where
  "py_round (Finite x) ndigits =
     to_double (of_int (round_half_even (x * 10 ^ ndigits)) / 10 ^ ndigits)"
| "py_round f ndigits = f"

section \<open>Python numbers and values\<close>

text \<open>
  A number that passes \<^verbatim>\<open>isinstance(x, (int, float))\<close> is an \<^verbatim>\<open>int\<close>, a \<^verbatim>\<open>float\<close> or a
  \<^verbatim>\<open>bool\<close> (\<^verbatim>\<open>bool\<close> is a subclass of \<^verbatim>\<open>int\<close>). An \<^verbatim>\<open>int\<close> is unbounded.
\<close>

datatype pynum = PInt int | PFloat pyfloat | PBool bool

text \<open>An argument of any type: a number, a string, or something else (\<^verbatim>\<open>None\<close>).\<close>

datatype pyval = PNum pynum | PStr string | PNone

text \<open>
  The exceptions the code raises. The messages they carry are left out.
  \<open>SqliteError\<close> stands for \<^verbatim>\<open>sqlite3.Error\<close> and its subclasses.
\<close>

datatype error = ValueError | TypeError | OverflowError | ZeroDivisionError | SqliteError

text \<open>
  Comparison of numbers is exact, also between an \<^verbatim>\<open>int\<close> and a \<^verbatim>\<open>float\<close>; every
  comparison with NaN is false.
\<close>

fun exact_val :: "pynum \<Rightarrow> pyfloat" where
  "exact_val (PInt i) = Finite (of_int i)"
| "exact_val (PFloat f) = f"
| "exact_val (PBool b) = Finite (if b then 1 else 0)"

definition py_lt :: "pynum \<Rightarrow> pynum \<Rightarrow> bool" where
  "py_lt x y = fl_lt (exact_val x) (exact_val y)"

definition py_le :: "pynum \<Rightarrow> pynum \<Rightarrow> bool" where
  "py_le x y = fl_le (exact_val x) (exact_val y)"

text \<open>
  Conversion of an operand to \<^verbatim>\<open>float\<close>: an \<^verbatim>\<open>int\<close> is rounded to the nearest float and
  raises \<^verbatim>\<open>OverflowError\<close> when it is too large.
\<close>

fun int_of :: "pynum \<Rightarrow> int option" where
  "int_of (PInt i) = Some i"
| "int_of (PBool b) = Some (if b then 1 else 0)"
| "int_of (PFloat f) = None"

definition int_to_float :: "int \<Rightarrow> error + pyfloat" where
  "int_to_float i =
     (if overflow_threshold \<le> \<bar>of_int i\<bar> then Inl OverflowError
      else Inr (to_double (of_int i)))"

fun to_float :: "pynum \<Rightarrow> error + pyfloat" where
  "to_float (PInt i) = int_to_float i"
| "to_float (PBool b) = int_to_float (if b then 1 else 0)"
| "to_float (PFloat f) = Inr f"

text \<open>
  The operator \<^verbatim>\<open>/\<close>. Between two \<^verbatim>\<open>int\<close>s the exact quotient is rounded once, and
  \<^verbatim>\<open>OverflowError\<close> is raised when it is too large for a float; otherwise both operands
  are converted and divided as floats.
\<close>

definition int_true_divide :: "int \<Rightarrow> int \<Rightarrow> error + pyfloat" where
  "int_true_divide a b =
     (if b = 0 then Inl ZeroDivisionError
      else if overflow_threshold \<le> \<bar>of_int a / of_int b\<bar> then Inl OverflowError
      else Inr (to_double (of_int a / of_int b)))"

definition float_truediv :: "pyfloat \<Rightarrow> pyfloat \<Rightarrow> error + pyfloat" where
  "float_truediv a b = (if b = Finite 0 then Inl ZeroDivisionError else Inr (fl_div a b))"

definition py_truediv :: "pynum \<Rightarrow> pynum \<Rightarrow> error + pyfloat" where
  "py_truediv x y =
     (case (int_of x, int_of y) of
        (Some a, Some b) \<Rightarrow> int_true_divide a b
      | _ \<Rightarrow> (case to_float x of
                Inl e \<Rightarrow> Inl e
              | Inr a \<Rightarrow> (case to_float y of
                           Inl e \<Rightarrow> Inl e
                         | Inr b \<Rightarrow> float_truediv a b)))"

text \<open>The operator \<^verbatim>\<open>*\<close> with a \<^verbatim>\<open>float\<close> on the left: the right operand is converted.\<close>

definition float_mul :: "pyfloat \<Rightarrow> pynum \<Rightarrow> error + pyfloat" where
  "float_mul a y = (case to_float y of Inl e \<Rightarrow> Inl e | Inr b \<Rightarrow> Inr (fl_mul a b))"

section \<open>Appliances (appliances.py)\<close>

text \<open>
  The three subclasses of \<^verbatim>\<open>Appliance\<close> add one descriptive attribute each.
\<close>

datatype variant = Iron (steam_booster: bool)
  | TV (screen_size_inches: pynum)
  | WashingMachine (capacity_kg: pynum)

record appliance =
  name :: string
  power_consumption_watts :: pynum
  is_on :: bool
  variant :: variant

text \<open>
  \<^verbatim>\<open>Appliance.__init__\<close>: the two checks of the base class, in the order of the source;
  it yields the validated name and power (the object starts switched off). Each subclass
  calls it first and then checks its own attribute. The default \<^verbatim>\<open>steam_booster=False\<close>
  of \<^verbatim>\<open>Iron\<close> is the caller passing \<open>PNum (PBool False)\<close>.
\<close>

definition Appliance_init :: "pyval \<Rightarrow> pyval \<Rightarrow> error + (string \<times> pynum)" where
  "Appliance_init nm pw =
     (case nm of
        PStr s \<Rightarrow>
          (if s = [] then Inl ValueError
           else (case pw of
                   PNum p \<Rightarrow> (if py_le p (PInt 0) then Inl ValueError else Inr (s, p))
                 | _ \<Rightarrow> Inl ValueError))
      | _ \<Rightarrow> Inl ValueError)"

definition Iron_init :: "pyval \<Rightarrow> pyval \<Rightarrow> pyval \<Rightarrow> error + appliance" where
  "Iron_init nm pw sb =
     (case Appliance_init nm pw of
        Inl e \<Rightarrow> Inl e
      | Inr (s, p) \<Rightarrow>
          (case sb of
             PNum (PBool b) \<Rightarrow>
               Inr \<lparr>name = s, power_consumption_watts = p, is_on = False, variant = Iron b\<rparr>
           | _ \<Rightarrow> Inl ValueError))"

definition TV_init :: "pyval \<Rightarrow> pyval \<Rightarrow> pyval \<Rightarrow> error + appliance" where
  "TV_init nm pw sz =
     (case Appliance_init nm pw of
        Inl e \<Rightarrow> Inl e
      | Inr (s, p) \<Rightarrow>
          (case sz of
             PNum n \<Rightarrow>
               (if py_le n (PInt 0) then Inl ValueError
                else Inr \<lparr>name = s, power_consumption_watts = p, is_on = False, variant = TV n\<rparr>)
           | _ \<Rightarrow> Inl ValueError))"

definition WashingMachine_init :: "pyval \<Rightarrow> pyval \<Rightarrow> pyval \<Rightarrow> error + appliance" where
  "WashingMachine_init nm pw cap =
     (case Appliance_init nm pw of
        Inl e \<Rightarrow> Inl e
      | Inr (s, p) \<Rightarrow>
          (case cap of
             PNum n \<Rightarrow>
               (if py_le n (PInt 0) then Inl ValueError
                else Inr \<lparr>name = s, power_consumption_watts = p, is_on = False,
                           variant = WashingMachine n\<rparr>)
           | _ \<Rightarrow> Inl ValueError))"

text \<open>
  Methods take the object and return it with their result, so that what a method leaves
  untouched is a theorem. \<^verbatim>\<open>turn_on\<close> and \<^verbatim>\<open>turn_off\<close> also print a status line, which
  is not modelled.
\<close>

definition turn_on :: "appliance \<Rightarrow> appliance" where
  "turn_on a = a\<lparr>is_on := True\<rparr>"

definition turn_off :: "appliance \<Rightarrow> appliance" where
  "turn_off a = a\<lparr>is_on := False\<rparr>"

text \<open>
  \<^verbatim>\<open>calculate_energy_consumption\<close>, one definition per subclass as in the source: the
  on/off test, then the check of \<open>hours\<close>, then \<^verbatim>\<open>(power / 1000) * hours\<close>, where the
  division or the multiplication may raise.
\<close>

definition Iron_calculate_energy_consumption ::
  "appliance \<Rightarrow> pyval \<Rightarrow> (error + pyfloat) \<times> appliance" where
  "Iron_calculate_energy_consumption a hours =
     (if \<not> is_on a then (Inr (Finite 0), a)
      else (case hours of
              PNum h \<Rightarrow>
                (if py_lt h (PInt 0) then (Inl ValueError, a)
                 else (case py_truediv (power_consumption_watts a) (PInt 1000) of
                         Inl e \<Rightarrow> (Inl e, a)
                       | Inr q \<Rightarrow> (float_mul q h, a)))
            | _ \<Rightarrow> (Inl ValueError, a)))"

definition TV_calculate_energy_consumption ::
  "appliance \<Rightarrow> pyval \<Rightarrow> (error + pyfloat) \<times> appliance" where
  "TV_calculate_energy_consumption a hours =
     (if \<not> is_on a then (Inr (Finite 0), a)
      else (case hours of
              PNum h \<Rightarrow>
                (if py_lt h (PInt 0) then (Inl ValueError, a)
                 else (case py_truediv (power_consumption_watts a) (PInt 1000) of
                         Inl e \<Rightarrow> (Inl e, a)
                       | Inr q \<Rightarrow> (float_mul q h, a)))
            | _ \<Rightarrow> (Inl ValueError, a)))"

definition WashingMachine_calculate_energy_consumption ::
  "appliance \<Rightarrow> pyval \<Rightarrow> (error + pyfloat) \<times> appliance" where
  "WashingMachine_calculate_energy_consumption a hours =
     (if \<not> is_on a then (Inr (Finite 0), a)
      else (case hours of
              PNum h \<Rightarrow>
                (if py_lt h (PInt 0) then (Inl ValueError, a)
                 else (case py_truediv (power_consumption_watts a) (PInt 1000) of
                         Inl e \<Rightarrow> (Inl e, a)
                       | Inr q \<Rightarrow> (float_mul q h, a)))
            | _ \<Rightarrow> (Inl ValueError, a)))"

text \<open>Dynamic dispatch on the class of the object.\<close>

definition calculate_energy_consumption ::
  "appliance \<Rightarrow> pyval \<Rightarrow> (error + pyfloat) \<times> appliance" where
  "calculate_energy_consumption a hours =
     (case variant a of
        Iron _ \<Rightarrow> Iron_calculate_energy_consumption a hours
      | TV _ \<Rightarrow> TV_calculate_energy_consumption a hours
      | WashingMachine _ \<Rightarrow> WashingMachine_calculate_energy_consumption a hours)"

text \<open>
  The operations that can follow the construction of an appliance, and a run of them.
\<close>

datatype operation = TurnOn | TurnOff | ComputeEnergy pyval

fun do_operation :: "appliance \<Rightarrow> operation \<Rightarrow> appliance" where
  "do_operation a TurnOn = turn_on a"
| "do_operation a TurnOff = turn_off a"
| "do_operation a (ComputeEnergy hours) = snd (calculate_energy_consumption a hours)"

section \<open>The calculator (calculator.py)\<close>

text \<open>One entry of \<^verbatim>\<open>detailed_results\<close> and the dictionary that is returned.\<close>

record detail =
  entry_name :: string
  consumption_kwh :: pyfloat
  cost :: pyfloat

record calculation_result =
  total_consumption_kwh :: pyfloat
  total_cost :: pyfloat
  details :: "detail list"

record energy_calculator =
  appliances :: "appliance list"
  tariff_kwh :: pynum

text \<open>
  What the caller may pass as the list of appliances: a list whose elements are appliances
  or other values, or something that is not a list.
\<close>

datatype pyobj = PAppliance appliance | PValue pyval | PList "pyobj list"

fun is_Appliance :: "pyobj \<Rightarrow> bool" where
  "is_Appliance (PAppliance a) = True"
| "is_Appliance _ = False"

fun appliances_of :: "pyobj list \<Rightarrow> appliance list" where
  "appliances_of [] = []"
| "appliances_of (PAppliance a # xs) = a # appliances_of xs"
| "appliances_of (_ # xs) = appliances_of xs"

text \<open>
  \<^verbatim>\<open>EnergyCalculator.__init__\<close>: the check of the list raises \<^verbatim>\<open>TypeError\<close>, the check
  of the tariff \<^verbatim>\<open>ValueError\<close>. The default \<^verbatim>\<open>tariff_kwh=0.15\<close> is the caller passing
  that float.
\<close>

definition EnergyCalculator_init :: "pyobj \<Rightarrow> pyval \<Rightarrow> error + energy_calculator" where
  "EnergyCalculator_init apps tariff =
     (case apps of
        PList xs \<Rightarrow>
          (if \<not> list_all is_Appliance xs then Inl TypeError
           else (case tariff of
                   PNum t \<Rightarrow>
                     (if py_lt t (PInt 0) then Inl ValueError
                      else Inr \<lparr>appliances = appliances_of xs, tariff_kwh = t\<rparr>)
                 | _ \<Rightarrow> Inl ValueError))
      | _ \<Rightarrow> Inl TypeError)"

text \<open>The setter of the property \<^verbatim>\<open>tariff_kwh\<close>.\<close>

definition set_tariff_kwh ::
  "energy_calculator \<Rightarrow> pyval \<Rightarrow> (error + unit) \<times> energy_calculator" where
  "set_tariff_kwh c v =
     (case v of
        PNum t \<Rightarrow>
          (if py_lt t (PInt 0) then (Inl ValueError, c)
           else (Inr (), c\<lparr>tariff_kwh := t\<rparr>))
      | _ \<Rightarrow> (Inl ValueError, c))"

text \<open>
  The loop of \<^verbatim>\<open>calculate_total_consumption_and_cost\<close> over \<^verbatim>\<open>self.appliances\<close>. The
  accumulator holds \<^verbatim>\<open>total_consumption_kwh\<close>, \<^verbatim>\<open>total_cost\<close> and \<^verbatim>\<open>detailed_results\<close>;
  the appliances come back as the calls left them. An exception ends the loop.
\<close>

fun consumption_loop ::
  "pynum \<Rightarrow> pyval \<Rightarrow> appliance list \<Rightarrow> pyfloat \<times> pyfloat \<times> detail list \<Rightarrow>
   (error + pyfloat \<times> pyfloat \<times> detail list) \<times> appliance list" where
  "consumption_loop t period [] acc = (Inr acc, [])"
| "consumption_loop t period (a # as) (tot_kwh, tot_cost, ds) =
     (if is_on a then
        (case calculate_energy_consumption a period of
           (Inl e, a') \<Rightarrow> (Inl e, a' # as)
         | (Inr kwh, a') \<Rightarrow>
             (case float_mul kwh t of
                Inl e \<Rightarrow> (Inl e, a' # as)
              | Inr c \<Rightarrow>
                  (let (r, as') = consumption_loop t period as
                         (fl_add tot_kwh kwh, fl_add tot_cost c,
                          ds @ [\<lparr>entry_name = name a', consumption_kwh = py_round kwh 3,
                                 cost = py_round c 2\<rparr>])
                   in (r, a' # as'))))
      else
        (let (r, as') = consumption_loop t period as
               (tot_kwh, tot_cost,
                ds @ [\<lparr>entry_name = name a, consumption_kwh = Finite 0, cost = Finite 0\<rparr>])
         in (r, a # as')))"

definition calculate_total_consumption_and_cost ::
  "energy_calculator \<Rightarrow> pyval \<Rightarrow> (error + calculation_result) \<times> energy_calculator" where
  "calculate_total_consumption_and_cost c period_hours =
     (case period_hours of
        PNum p \<Rightarrow>
          (if py_lt p (PInt 0) then (Inl ValueError, c)
           else (case consumption_loop (tariff_kwh c) period_hours (appliances c)
                        (Finite 0, Finite 0, []) of
                   (Inl e, as') \<Rightarrow> (Inl e, c\<lparr>appliances := as'\<rparr>)
                 | (Inr (tot_kwh, tot_cost, ds), as') \<Rightarrow>
                     (Inr \<lparr>total_consumption_kwh = py_round tot_kwh 3,
                           total_cost = py_round tot_cost 2,
                           details = ds\<rparr>,
                      c\<lparr>appliances := as'\<rparr>)))
      | _ \<Rightarrow> (Inl ValueError, c))"

section \<open>The record store (database.py)\<close>

text \<open>
  A row of the table \<^verbatim>\<open>consumption_records\<close>, with the columns of the
  \<^verbatim>\<open>CREATE TABLE\<close> statement in their order. The column \<^verbatim>\<open>timestamp\<close> is text.
\<close>

datatype sqlval = SqlInt int | SqlReal real | SqlText string

record consumption_record =
  col_id :: int
  col_appliance_name :: string
  col_power_consumption_watts :: sqlval
  col_hours_used :: real
  col_consumption_kwh :: real
  col_cost :: real
  col_tariff :: real
  col_timestamp :: string

text \<open>The tuple that \<^verbatim>\<open>fetchall\<close> gives for a row, and the names in \<^verbatim>\<open>cursor.description\<close>.\<close>

definition row_tuple :: "consumption_record \<Rightarrow> sqlval list" where
  "row_tuple r =
     [SqlInt (col_id r), SqlText (col_appliance_name r), col_power_consumption_watts r,
      SqlReal (col_hours_used r), SqlReal (col_consumption_kwh r), SqlReal (col_cost r),
      SqlReal (col_tariff r), SqlText (col_timestamp r)]"

definition column_names :: "string list" where
  "column_names =
     [''id'', ''appliance_name'', ''power_consumption_watts'', ''hours_used'',
      ''consumption_kwh'', ''cost'', ''tariff'', ''timestamp'']"

text \<open>
  The database file is outside the program: either the engine can read the table, or a
  statement on it raises \<^verbatim>\<open>sqlite3.Error\<close>. The manager holds the name of the file and
  its connection, which \<^verbatim>\<open>close\<close> closes.
\<close>

datatype store = Unreadable | Table "consumption_record list"

record database_manager =
  db_name :: string
  connected :: bool

text \<open>
  \<^verbatim>\<open>SELECT * FROM consumption_records ORDER BY timestamp DESC\<close> followed by
  \<^verbatim>\<open>fetchall\<close>: every row, the greatest timestamp first (text compares byte by byte).
  Among rows with equal timestamps the engine is free; the model takes one order.
  A closed connection raises as well.
\<close>

definition execute_select_all :: "database_manager \<Rightarrow> store \<Rightarrow> error + sqlval list list" where
  "execute_select_all m st =
     (if \<not> connected m then Inl SqliteError
      else (case st of
              Unreadable \<Rightarrow> Inl SqliteError
            | Table rows \<Rightarrow> Inr (map row_tuple (rev (sort_key col_timestamp rows)))))"

text \<open>
  The inner loop of \<^verbatim>\<open>get_all_records\<close>: \<^verbatim>\<open>record_dict[col_name] = row[i]\<close>. A row has
  one entry per column name, so \<open>i\<close> is always in range.
\<close>

fun fill_record_dict ::
  "(nat \<times> string) list \<Rightarrow> sqlval list \<Rightarrow> (string \<rightharpoonup> sqlval) \<Rightarrow> (string \<rightharpoonup> sqlval)" where
  "fill_record_dict [] row d = d"
| "fill_record_dict ((i, col_name) # rest) row d = fill_record_dict rest row (d(col_name \<mapsto> row ! i))"

text \<open>
  \<^verbatim>\<open>get_all_records\<close>: the \<^verbatim>\<open>except\<close> clause catches \<^verbatim>\<open>sqlite3.Error\<close> and returns the
  empty list; any other exception would pass through.
\<close>

definition get_all_records ::
  "database_manager \<Rightarrow> store \<Rightarrow> error + (string \<rightharpoonup> sqlval) list" where
  "get_all_records m st =
     (case execute_select_all m st of
        Inl e \<Rightarrow> (if e = SqliteError then Inr [] else Inl e)
      | Inr rows \<Rightarrow>
          Inr (map (\<lambda>row. fill_record_dict (enumerate 0 column_names) row Map.empty) rows))"

section \<open>Rounding to a float\<close>

lemma exponent_search_normal:
  "2 powi e \<le> \<bar>x\<bar> \<Longrightarrow> \<bar>x\<bar> < 2 powi (e + 1) \<Longrightarrow> - 1021 \<le> e \<Longrightarrow> e < int k - 1021
   \<Longrightarrow> exponent_search k x = e"
proof (induction k)
  case 0
  then show ?case by simp
next
  case (Suc k)
  show ?case
  proof (cases "e = int k - 1021")
    case True
    with Suc.prems show ?thesis by simp
  next
    case False
    with Suc.prems have lt: "e < int k - 1021" by simp
    then have "e + 1 \<le> int k - 1021" by simp
    then have "(2::real) powi (e + 1) \<le> 2 powi (int k - 1021)"
      by (intro power_int_increasing) simp_all
    with Suc.prems have "\<not> 2 powi (int k - 1021) \<le> \<bar>x\<bar>" by linarith
    with Suc.IH [OF Suc.prems(1,2,3) lt] show ?thesis by simp
  qed
qed

lemma exponent_search_subnormal:
  "\<bar>x\<bar> < 2 powi (- 1021) \<Longrightarrow> exponent_search k x = - 1022"
proof (induction k)
  case 0
  show ?case by simp
next
  case (Suc k)
  have "(2::real) powi (- 1021) \<le> 2 powi (int k - 1021)"
    by (intro power_int_increasing) simp_all
  with Suc.prems have "\<not> 2 powi (int k - 1021) \<le> \<bar>x\<bar>" by linarith
  with Suc show ?case by simp
qed

lemma float_exponent_normal:
  "2 powi e \<le> \<bar>x\<bar> \<Longrightarrow> \<bar>x\<bar> < 2 powi (e + 1) \<Longrightarrow> - 1021 \<le> e \<Longrightarrow> e \<le> 1023
   \<Longrightarrow> float_exponent x = e"
  unfolding float_exponent_def by (rule exponent_search_normal) simp_all

lemma float_exponent_subnormal:
  "\<bar>x\<bar> < 2 powi (- 1021) \<Longrightarrow> float_exponent x = - 1022"
  unfolding float_exponent_def by (rule exponent_search_subnormal)

lemma to_double_normal:
  assumes "2 powi e \<le> \<bar>x\<bar>" and "\<bar>x\<bar> < 2 powi (e + 1)" and "- 1021 \<le> e" and "e \<le> 1022"
  shows "to_double x =
    Finite (of_int (round_half_even (x / 2 powi (e - 52))) * 2 powi (e - 52))"
proof -
  from assms(4) have "(2::real) powi (e + 1) \<le> 2 powi 1023"
    by (intro power_int_increasing) simp_all
  also have "\<dots> < overflow_threshold"
    by (simp add: overflow_threshold_def)
  finally have "\<bar>x\<bar> < overflow_threshold" using assms(2) by linarith
  moreover from assms have "float_exponent x = e"
    by (intro float_exponent_normal) simp_all
  ultimately show ?thesis by (simp add: to_double_def Let_def)
qed

lemma to_double_0: "to_double 0 = Finite 0"
  by (simp add: to_double_def overflow_threshold_def round_half_even_def)

lemma to_double_1: "to_double 1 = Finite 1"
  by (simp add: to_double_normal [of 0] round_half_even_def)

section \<open>Comparisons and conversions\<close>

lemma py_le_zero_not_lt: "py_le (PInt 0) h \<Longrightarrow> \<not> py_lt h (PInt 0)"
  by (cases "exact_val h") (auto simp: py_le_def py_lt_def fl_le_def)

lemma int_to_float_1000: "int_to_float 1000 = Inr (Finite 1000)"
  by (simp add: int_to_float_def overflow_threshold_def to_double_normal [of 9]
      round_half_even_def)

lemma py_truediv_1000:
  "py_truediv (PInt i) (PInt 1000) =
     (if overflow_threshold \<le> \<bar>of_int i / 1000\<bar> then Inl OverflowError
      else Inr (to_double (of_int i / 1000)))"
  "py_truediv (PBool b) (PInt 1000) = Inr (to_double ((if b then 1 else 0) / 1000))"
  "py_truediv (PFloat f) (PInt 1000) = Inr (fl_div f (Finite 1000))"
  by (simp_all add: py_truediv_def int_true_divide_def int_to_float_1000 float_truediv_def
      overflow_threshold_def)

lemma py_truediv_1000_error: "py_truediv P (PInt 1000) = Inl e \<Longrightarrow> e = OverflowError"
  by (cases P) (auto simp: py_truediv_1000 split: if_splits)

lemma float_mul_error: "float_mul q h = Inl e \<Longrightarrow> e = OverflowError"
  by (cases h) (auto simp: float_mul_def int_to_float_def split: if_splits sum.splits)

section \<open>Energy of one appliance\<close>

lemma calculate_energy_consumption_eq:
  "calculate_energy_consumption a hours =
     (if \<not> is_on a then (Inr (Finite 0), a)
      else (case hours of
              PNum h \<Rightarrow>
                (if py_lt h (PInt 0) then (Inl ValueError, a)
                 else (case py_truediv (power_consumption_watts a) (PInt 1000) of
                         Inl e \<Rightarrow> (Inl e, a)
                       | Inr q \<Rightarrow> (float_mul q h, a)))
            | _ \<Rightarrow> (Inl ValueError, a)))"
  by (simp add: calculate_energy_consumption_def Iron_calculate_energy_consumption_def
      TV_calculate_energy_consumption_def WashingMachine_calculate_energy_consumption_def
      split: variant.split)

lemma snd_calculate_energy_consumption: "snd (calculate_energy_consumption a h) = a"
  by (simp add: calculate_energy_consumption_eq split: pyval.split sum.split)

lemma energy_error_Overflow:
  "\<not> py_lt h (PInt 0) \<Longrightarrow> fst (calculate_energy_consumption a (PNum h)) = Inl e
   \<Longrightarrow> e = OverflowError"
  by (auto simp: calculate_energy_consumption_eq split: if_splits sum.splits
      dest: py_truediv_1000_error float_mul_error)

text \<open>
  C1 (as stated). The claim promises a value for every appliance that is on. An
  \<^verbatim>\<open>int\<close> power of \<open>10 ^ 312\<close> passes the constructor's checks, and with it
  \<^verbatim>\<open>power / 1000\<close> is too large for a float: the call raises \<^verbatim>\<open>OverflowError\<close>.
\<close>

theorem C1_overflow_counterexample:
  "py_le (PInt 0) (PInt 1) \<and>
   fst (calculate_energy_consumption
          \<lparr>name = ''iron'', power_consumption_watts = PInt (10 ^ 312), is_on = True,
           variant = Iron False\<rparr> (PNum (PInt 1))) = Inl OverflowError"
  by (simp add: calculate_energy_consumption_eq py_le_def py_lt_def fl_le_def py_truediv_1000
      overflow_threshold_def)

text \<open>
  C1 (amended). For an appliance of any of the three variants and hours that are not
  negative, the result is 0.0 when the appliance is off and, when it is on with power P,
  what Python's \<^verbatim>\<open>(P / 1000) * hours\<close> gives: the quotient rounded to a float, times the
  hours, rounded to a float. The only failure is \<^verbatim>\<open>OverflowError\<close>, raised exactly when P
  is an \<^verbatim>\<open>int\<close> whose quotient by 1000 is beyond the floats or the hours are an \<^verbatim>\<open>int\<close>
  beyond the floats. The variant plays no part.
\<close>

theorem C1_energy_formula:
  "py_le (PInt 0) h \<Longrightarrow>
   (let P = power_consumption_watts a;
        expected = (if is_on a
                    then (case py_truediv P (PInt 1000) of
                            Inl e \<Rightarrow> Inl e
                          | Inr q \<Rightarrow> float_mul q h)
                    else Inr (Finite 0))
    in fst (Iron_calculate_energy_consumption a (PNum h)) = expected \<and>
       fst (TV_calculate_energy_consumption a (PNum h)) = expected \<and>
       fst (WashingMachine_calculate_energy_consumption a (PNum h)) = expected \<and>
       fst (calculate_energy_consumption a (PNum h)) = expected \<and>
       (is_on a \<longrightarrow>
          (isl expected \<longleftrightarrow>
             (\<exists>i. P = PInt i \<and> overflow_threshold \<le> \<bar>of_int i / 1000\<bar>) \<or>
             (\<exists>j. h = PInt j \<and> overflow_threshold \<le> \<bar>of_int j\<bar>))) \<and>
       (\<forall>e. expected = Inl e \<longrightarrow> e = OverflowError) \<and>
       (\<forall>x y. is_on a \<and> P = PFloat (Finite x) \<and> h = PFloat (Finite y) \<longrightarrow>
          expected = Inr (fl_mul (to_double (x / 1000)) (Finite y))))"
proof -
  assume h: "py_le (PInt 0) h"
  then have nlt: "\<not> py_lt h (PInt 0)" by (rule py_le_zero_not_lt)
  let ?P = "power_consumption_watts a"
  let ?x = "(if is_on a
                    then (case py_truediv ?P (PInt 1000) of
                            Inl e \<Rightarrow> Inl e
                          | Inr q \<Rightarrow> float_mul q h)
                    else Inr (Finite 0))"
  have 1: "fst (Iron_calculate_energy_consumption a (PNum h)) = ?x"
    "fst (TV_calculate_energy_consumption a (PNum h)) = ?x"
    "fst (WashingMachine_calculate_energy_consumption a (PNum h)) = ?x"
    "fst (calculate_energy_consumption a (PNum h)) = ?x"
    using nlt
    by (simp_all add: calculate_energy_consumption_eq Iron_calculate_energy_consumption_def
      TV_calculate_energy_consumption_def WashingMachine_calculate_energy_consumption_def
      split: sum.split)
  have small: "\<not> overflow_threshold \<le> 1 / 1000" "\<not> overflow_threshold \<le> 1" "\<not> overflow_threshold \<le> 0"
    by (simp_all add: overflow_threshold_def)
  have 2: "is_on a \<longrightarrow> (isl ?x \<longleftrightarrow>
             (\<exists>i. ?P = PInt i \<and> overflow_threshold \<le> \<bar>of_int i / 1000\<bar>) \<or>
             (\<exists>j. h = PInt j \<and> overflow_threshold \<le> \<bar>of_int j\<bar>))"
    by (cases ?P; cases h)
      (auto simp: py_truediv_1000 float_mul_def int_to_float_def small split: if_splits)
  have 3: "\<forall>e. ?x = Inl e \<longrightarrow> e = OverflowError"
    by (auto split: if_splits sum.splits dest: py_truediv_1000_error float_mul_error)
  have 4: "\<forall>x y. is_on a \<and> ?P = PFloat (Finite x) \<and> h = PFloat (Finite y) \<longrightarrow>
          ?x = Inr (fl_mul (to_double (x / 1000)) (Finite y))"
    by (simp add: py_truediv_1000 float_mul_def fl_div_def)
  from 1 2 3 4 show ?thesis by (simp add: Let_def)
qed

theorem C1_energy_formula_witness:
  "py_le (PInt 0) (PFloat (Finite (3 / 2))) \<and>
   fst (calculate_energy_consumption
          \<lparr>name = ''wm'', power_consumption_watts = PInt 2200, is_on = True,
           variant = WashingMachine (PInt 7)\<rparr> (PNum (PFloat (Finite (3 / 2))))) =
     Inr (Finite (7430939385161319 / 2 ^ 51)) \<and>
   fst (calculate_energy_consumption
          \<lparr>name = ''tv'', power_consumption_watts = PInt 2000, is_on = False,
           variant = TV (PInt 55)\<rparr> (PNum (PFloat (Finite (3 / 2))))) = Inr (Finite 0)"
proof -
  have h: "py_le (PInt 0) (PFloat (Finite (3 / 2)))"
    by (simp add: py_le_def fl_le_def)
  have q: "py_truediv (PInt 2200) (PInt 1000) = Inr (Finite (4953959590107546 / 2 ^ 51))"
    by (simp add: py_truediv_1000 overflow_threshold_def to_double_normal [of 1]
        round_half_even_def)
  have m: "float_mul (Finite (4953959590107546 / 2 ^ 51)) (PFloat (Finite (3 / 2))) =
      Inr (Finite (7430939385161319 / 2 ^ 51))"
    by (simp add: float_mul_def fl_mul_def to_double_normal [of 1] round_half_even_def)
  from C1_energy_formula [OF h, of
      "\<lparr>name = ''wm'', power_consumption_watts = PInt 2200, is_on = True,
        variant = WashingMachine (PInt 7)\<rparr>"]
    C1_energy_formula [OF h, of
      "\<lparr>name = ''tv'', power_consumption_watts = PInt 2000, is_on = False,
        variant = TV (PInt 55)\<rparr>"] h q m
  show ?thesis by (simp add: Let_def)
qed

text \<open>
  C2 (as stated). The claim says that negative hours fail whether the appliance is on or off.
  An appliance that is off returns 0.0 for -1 hours: the on/off test comes first.
\<close>

theorem C2_negative_hours_off_counterexample:
  "py_lt (PInt (- 1)) (PInt 0) \<and>
   fst (calculate_energy_consumption
          \<lparr>name = ''iron'', power_consumption_watts = PInt 2000, is_on = False,
           variant = Iron False\<rparr> (PNum (PInt (- 1)))) = Inr (Finite 0)"
  by (simp add: calculate_energy_consumption_eq py_lt_def)

text \<open>
  C2 (amended). For every appliance that is on and every negative number of hours,
  \<^verbatim>\<open>calculate_energy_consumption\<close> raises \<^verbatim>\<open>ValueError\<close> and leaves the appliance as it was.
\<close>

theorem C2_negative_hours_on:
  "is_on a \<Longrightarrow> py_lt h (PInt 0) \<Longrightarrow>
   calculate_energy_consumption a (PNum h) = (Inl ValueError, a)"
  by (simp add: calculate_energy_consumption_eq)

theorem C2_negative_hours_on_witness:
  "is_on \<lparr>name = ''wm'', power_consumption_watts = PFloat (Finite 2200), is_on = True,
          variant = WashingMachine (PInt 7)\<rparr> \<and>
   py_lt (PFloat (Finite (- 1 / 2))) (PInt 0) \<and>
   fst (calculate_energy_consumption
          \<lparr>name = ''wm'', power_consumption_watts = PFloat (Finite 2200), is_on = True,
           variant = WashingMachine (PInt 7)\<rparr> (PNum (PFloat (Finite (- 1 / 2))))) =
     Inl ValueError"
  using C2_negative_hours_on [of
      "\<lparr>name = ''wm'', power_consumption_watts = PFloat (Finite 2200), is_on = True,
        variant = WashingMachine (PInt 7)\<rparr>" "PFloat (Finite (- 1 / 2))"]
  by (simp add: py_lt_def)

text \<open>
  C10. An appliance that is off returns 0.0 for every argument, negative hours and
  arguments that are not numbers included, and raises nothing: each of the three methods
  tests \<open>is_on\<close> before it looks at \<open>hours\<close>, so an error can only come from an appliance
  that is on.
\<close>

theorem C10_off_returns_zero:
  "(\<not> is_on a \<longrightarrow>
      Iron_calculate_energy_consumption a hours = (Inr (Finite 0), a) \<and>
      TV_calculate_energy_consumption a hours = (Inr (Finite 0), a) \<and>
      WashingMachine_calculate_energy_consumption a hours = (Inr (Finite 0), a) \<and>
      calculate_energy_consumption a hours = (Inr (Finite 0), a)) \<and>
   (fst (calculate_energy_consumption a hours) = Inl e \<longrightarrow> is_on a)"
  by (auto simp: calculate_energy_consumption_eq Iron_calculate_energy_consumption_def
      TV_calculate_energy_consumption_def WashingMachine_calculate_energy_consumption_def)

theorem C10_off_returns_zero_witness:
  "\<not> is_on \<lparr>name = ''tv'', power_consumption_watts = PInt 150, is_on = False,
            variant = TV (PInt 55)\<rparr> \<and>
   calculate_energy_consumption
     \<lparr>name = ''tv'', power_consumption_watts = PInt 150, is_on = False,
      variant = TV (PInt 55)\<rparr> (PNum (PInt (- 5))) =
     (Inr (Finite 0), \<lparr>name = ''tv'', power_consumption_watts = PInt 150, is_on = False,
              variant = TV (PInt 55)\<rparr>) \<and>
   fst (calculate_energy_consumption
     \<lparr>name = ''tv'', power_consumption_watts = PInt 150, is_on = True,
      variant = TV (PInt 55)\<rparr> (PNum (PInt (- 5)))) = Inl ValueError \<and>
   is_on \<lparr>name = ''tv'', power_consumption_watts = PInt 150, is_on = True,
          variant = TV (PInt 55)\<rparr>"
  using C10_off_returns_zero [of
      "\<lparr>name = ''tv'', power_consumption_watts = PInt 150, is_on = False,
        variant = TV (PInt 55)\<rparr>" "PNum (PInt (- 5))" ValueError]
    C10_off_returns_zero [of
      "\<lparr>name = ''tv'', power_consumption_watts = PInt 150, is_on = True,
        variant = TV (PInt 55)\<rparr>" "PNum (PInt (- 5))" ValueError]
  by (simp add: calculate_energy_consumption_eq py_lt_def)

section \<open>Totals of the calculator\<close>

lemma snd_consumption_loop: "snd (consumption_loop t p as acc) = as"
proof (induction as arbitrary: acc)
  case Nil
  show ?case by simp
next
  case (Cons a as)
  obtain tot_kwh tot_cost ds where acc: "acc = (tot_kwh, tot_cost, ds)"
    by (cases acc)
  obtain r a' where c: "calculate_energy_consumption a p = (r, a')"
    by (cases "calculate_energy_consumption a p")
  with snd_calculate_energy_consumption [of a p] have a': "a' = a" by simp
  show ?case
  proof (cases "is_on a")
    case False
    let ?acc = "(tot_kwh, tot_cost,
        ds @ [\<lparr>entry_name = name a, consumption_kwh = Finite 0, cost = Finite 0\<rparr>])"
    obtain r2 as2 where l: "consumption_loop t p as ?acc = (r2, as2)"
      by (cases "consumption_loop t p as ?acc")
    with Cons [of ?acc] have "as2 = as" by simp
    with False l acc show ?thesis by simp
  next
    case True
    show ?thesis
    proof (cases r)
      case (Inl e)
      with True c a' acc show ?thesis by simp
    next
      case (Inr kwh)
      show ?thesis
      proof (cases "float_mul kwh t")
        case (Inl e)
        with True c a' acc Inr show ?thesis by simp
      next
        case cst: (Inr cst)
        let ?acc = "(fl_add tot_kwh kwh, fl_add tot_cost cst,
                     ds @ [\<lparr>entry_name = name a, consumption_kwh = py_round kwh 3,
                            cost = py_round cst 2\<rparr>])"
        obtain r2 as2 where l: "consumption_loop t p as ?acc = (r2, as2)"
          by (cases "consumption_loop t p as ?acc")
        with Cons [of ?acc] have "as2 = as" by simp
        with True c a' acc Inr cst l show ?thesis by simp
      qed
    qed
  qed
qed

lemma calculate_total_unchanged: "snd (calculate_total_consumption_and_cost c period) = c"
proof -
  have "\<And>r as'. consumption_loop (tariff_kwh c) period (appliances c) (Finite 0, Finite 0, []) = (r, as')
      \<Longrightarrow> as' = appliances c"
    using snd_consumption_loop [of "tariff_kwh c" period "appliances c" "(Finite 0, Finite 0, [])"]
    by simp
  then show ?thesis
    by (auto simp: calculate_total_consumption_and_cost_def
        split: pyval.splits prod.splits sum.splits)
qed

lemma consumption_loop_eq:
  fixes t :: pynum and p :: pynum
  defines "energy_of \<equiv> \<lambda>a. fst (calculate_energy_consumption a (PNum p))"
  defines "cost_of \<equiv> \<lambda>a. case energy_of a of Inl e \<Rightarrow> Inl e | Inr k \<Rightarrow> float_mul k t"
  assumes p: "\<not> py_lt p (PInt 0)"
  shows "consumption_loop t (PNum p) as (k, c, ds) =
    ((if \<exists>a\<in>set as. is_on a \<and> isl (cost_of a) then Inl OverflowError
      else Inr (foldl fl_add k (map (projr \<circ> energy_of) (filter is_on as)),
                foldl fl_add c (map (projr \<circ> cost_of) (filter is_on as)),
                ds @ map (\<lambda>a. if is_on a
                     then \<lparr>entry_name = name a,
                           consumption_kwh = py_round (projr (energy_of a)) 3,
                           cost = py_round (projr (cost_of a)) 2\<rparr>
                     else \<lparr>entry_name = name a, consumption_kwh = Finite 0,
                           cost = Finite 0\<rparr>) as)),
     as)"
proof (induction as arbitrary: k c ds)
  case Nil
  show ?case by simp
next
  case (Cons a as)
  show ?case
  proof (cases "is_on a")
    case False
    then show ?thesis by (simp add: Cons)
  next
    case True
    have c: "calculate_energy_consumption a (PNum p) = (energy_of a, a)"
      using snd_calculate_energy_consumption [of a "PNum p"]
      by (simp add: energy_of_def prod_eq_iff)
    show ?thesis
    proof (cases "energy_of a")
      case (Inl e)
      with p have "e = OverflowError"
        unfolding energy_of_def by (rule energy_error_Overflow)
      with True c Inl show ?thesis by (simp add: cost_of_def)
    next
      case (Inr kwh)
      show ?thesis
      proof (cases "float_mul kwh t")
        case (Inl e)
        then have "e = OverflowError" by (rule float_mul_error)
        with True c Inr Inl show ?thesis by (simp add: cost_of_def)
      next
        case cst: (Inr cst)
        with Inr have "cost_of a = Inr cst" by (simp add: cost_of_def)
        with True c Inr cst show ?thesis by (simp add: Cons)
      qed
    qed
  qed
qed





text \<open>
  C5. The call returns the calculator as it found it (the list of appliances with their
  names, powers and on/off states, and the tariff), so a second call with the same period
  returns the same result.
\<close>

theorem C5_no_mutation_idempotent:
  "snd (calculate_total_consumption_and_cost c period) = c \<and>
   calculate_total_consumption_and_cost
     (snd (calculate_total_consumption_and_cost c period)) period =
   calculate_total_consumption_and_cost c period"
  by (simp only: calculate_total_unchanged)

theorem C5_no_mutation_idempotent_witness:
  "snd (calculate_total_consumption_and_cost
     \<lparr>appliances =
        [\<lparr>name = ''iron'', power_consumption_watts = PInt 2000, is_on = True,
          variant = Iron True\<rparr>,
         \<lparr>name = ''wm'', power_consumption_watts = PFloat (Finite 2200), is_on = False,
          variant = WashingMachine (PInt 7)\<rparr>],
      tariff_kwh = PFloat (Finite (1 / 4))\<rparr> (PNum (PInt 2))) =
    \<lparr>appliances =
        [\<lparr>name = ''iron'', power_consumption_watts = PInt 2000, is_on = True,
          variant = Iron True\<rparr>,
         \<lparr>name = ''wm'', power_consumption_watts = PFloat (Finite 2200), is_on = False,
          variant = WashingMachine (PInt 7)\<rparr>],
      tariff_kwh = PFloat (Finite (1 / 4))\<rparr> \<and>
   calculate_total_consumption_and_cost
     (snd (calculate_total_consumption_and_cost
        \<lparr>appliances =
            [\<lparr>name = ''iron'', power_consumption_watts = PInt 2000, is_on = True,
              variant = Iron True\<rparr>,
             \<lparr>name = ''wm'', power_consumption_watts = PFloat (Finite 2200), is_on = False,
              variant = WashingMachine (PInt 7)\<rparr>],
          tariff_kwh = PFloat (Finite (1 / 4))\<rparr> (PNum (PInt 2)))) (PNum (PInt 2)) =
   calculate_total_consumption_and_cost
        \<lparr>appliances =
            [\<lparr>name = ''iron'', power_consumption_watts = PInt 2000, is_on = True,
              variant = Iron True\<rparr>,
             \<lparr>name = ''wm'', power_consumption_watts = PFloat (Finite 2200), is_on = False,
              variant = WashingMachine (PInt 7)\<rparr>],
          tariff_kwh = PFloat (Finite (1 / 4))\<rparr> (PNum (PInt 2))"
  by (rule C5_no_mutation_idempotent)

section \<open>Construction and the tariff\<close>

text \<open>
  C6. The construction of a calculator fails when the list holds an element that is not
  an appliance (the exception is \<^verbatim>\<open>TypeError\<close>) and when the tariff is negative
  (\<^verbatim>\<open>ValueError\<close> when the list is valid); with a list of appliances and a tariff that is
  not negative it succeeds and stores the list and the tariff as given.
\<close>

theorem C6_construction:
  "((\<exists>x\<in>set xs. \<not> is_Appliance x) \<longrightarrow>
      EnergyCalculator_init (PList xs) tariff = Inl TypeError) \<and>
   (py_lt t (PInt 0) \<longrightarrow>
      isl (EnergyCalculator_init apps (PNum t)) \<and>
      (list_all is_Appliance xs \<longrightarrow>
         EnergyCalculator_init (PList xs) (PNum t) = Inl ValueError)) \<and>
   (list_all is_Appliance xs \<and> py_le (PInt 0) t \<longrightarrow>
      EnergyCalculator_init (PList xs) (PNum t) =
        Inr \<lparr>appliances = appliances_of xs, tariff_kwh = t\<rparr> \<and>
      map PAppliance (appliances_of xs) = xs)"
proof -
  have "list_all is_Appliance xs \<Longrightarrow> map PAppliance (appliances_of xs) = xs"
    by (induction xs rule: appliances_of.induct) simp_all
  then show ?thesis
    by (auto simp: EnergyCalculator_init_def list_all_iff split: pyobj.splits
        dest: py_le_zero_not_lt)
qed

theorem C6_construction_witness:
  "(\<exists>x\<in>set [PAppliance \<lparr>name = ''tv'', power_consumption_watts = PInt 150, is_on = False,
                 variant = TV (PInt 55)\<rparr>, PValue (PStr ''kettle'')]. \<not> is_Appliance x) \<and>
   EnergyCalculator_init
     (PList [PAppliance \<lparr>name = ''tv'', power_consumption_watts = PInt 150, is_on = False,
                 variant = TV (PInt 55)\<rparr>, PValue (PStr ''kettle'')])
     (PNum (PFloat (Finite (1 / 4)))) = Inl TypeError \<and>
   py_lt (PFloat (Finite (- 1 / 8))) (PInt 0) \<and>
   list_all is_Appliance
     [PAppliance \<lparr>name = ''tv'', power_consumption_watts = PInt 150, is_on = False,
                 variant = TV (PInt 55)\<rparr>] \<and>
   EnergyCalculator_init
     (PList [PAppliance \<lparr>name = ''tv'', power_consumption_watts = PInt 150, is_on = False,
                 variant = TV (PInt 55)\<rparr>])
     (PNum (PFloat (Finite (- 1 / 8)))) = Inl ValueError \<and>
   py_le (PInt 0) (PFloat (Finite (1 / 4))) \<and>
   EnergyCalculator_init
     (PList [PAppliance \<lparr>name = ''tv'', power_consumption_watts = PInt 150, is_on = False,
                 variant = TV (PInt 55)\<rparr>])
     (PNum (PFloat (Finite (1 / 4)))) =
     Inr \<lparr>appliances = [\<lparr>name = ''tv'', power_consumption_watts = PInt 150, is_on = False,
                 variant = TV (PInt 55)\<rparr>], tariff_kwh = PFloat (Finite (1 / 4))\<rparr>"
  using C6_construction [of
      "[PAppliance \<lparr>name = ''tv'', power_consumption_watts = PInt 150, is_on = False,
                 variant = TV (PInt 55)\<rparr>, PValue (PStr ''kettle'')]"
      "PNum (PFloat (Finite (1 / 4)))" "PFloat (Finite (1 / 4))" "PValue PNone"]
    C6_construction [of
      "[PAppliance \<lparr>name = ''tv'', power_consumption_watts = PInt 150, is_on = False,
                 variant = TV (PInt 55)\<rparr>]"
      PNone "PFloat (Finite (- 1 / 8))" "PValue PNone"]
    C6_construction [of
      "[PAppliance \<lparr>name = ''tv'', power_consumption_watts = PInt 150, is_on = False,
                 variant = TV (PInt 55)\<rparr>]"
      PNone "PFloat (Finite (1 / 4))" "PValue PNone"]
  by (simp add: py_lt_def py_le_def fl_le_def)

text \<open>
  C7. Setting a negative tariff raises \<^verbatim>\<open>ValueError\<close> and leaves the calculator as it
  was, the stored tariff included; setting a tariff that is not negative stores exactly
  that value.
\<close>

theorem C7_tariff_setter:
  "(py_lt v (PInt 0) \<longrightarrow> set_tariff_kwh c (PNum v) = (Inl ValueError, c)) \<and>
   (py_le (PInt 0) v \<longrightarrow> set_tariff_kwh c (PNum v) = (Inr (), c\<lparr>tariff_kwh := v\<rparr>))"
  by (auto simp: set_tariff_kwh_def dest: py_le_zero_not_lt)

theorem C7_tariff_setter_witness:
  "py_lt (PInt (- 1)) (PInt 0) \<and>
   set_tariff_kwh \<lparr>appliances = [], tariff_kwh = PFloat (Finite (1 / 8))\<rparr> (PNum (PInt (- 1))) =
     (Inl ValueError, \<lparr>appliances = [], tariff_kwh = PFloat (Finite (1 / 8))\<rparr>) \<and>
   py_le (PInt 0) (PFloat (Finite (1 / 4))) \<and>
   set_tariff_kwh \<lparr>appliances = [], tariff_kwh = PFloat (Finite (1 / 8))\<rparr>
       (PNum (PFloat (Finite (1 / 4)))) =
     (Inr (), \<lparr>appliances = [], tariff_kwh = PFloat (Finite (1 / 4))\<rparr>)"
  using C7_tariff_setter [of "PInt (- 1)" "\<lparr>appliances = [], tariff_kwh = PFloat (Finite (1 / 8))\<rparr>"]
    C7_tariff_setter [of "PFloat (Finite (1 / 4))"
      "\<lparr>appliances = [], tariff_kwh = PFloat (Finite (1 / 8))\<rparr>"]
  by (simp add: py_lt_def py_le_def fl_le_def)

section \<open>The invariant of an appliance\<close>

text \<open>No operation on an appliance assigns its name or its power.\<close>

lemma do_operation_keeps:
  "name (do_operation a x) = name a \<and>
   power_consumption_watts (do_operation a x) = power_consumption_watts a"
  by (cases x) (simp_all add: turn_on_def turn_off_def snd_calculate_energy_consumption)

lemma foldl_do_operation_keeps:
  "name (foldl do_operation a ops) = name a \<and>
   power_consumption_watts (foldl do_operation a ops) = power_consumption_watts a"
  by (induction ops arbitrary: a) (simp_all add: do_operation_keeps)

text \<open>
  What the constructors do guarantee: the name is a non-empty string and the power is a
  number for which \<^verbatim>\<open>power <= 0\<close> is false. Among the numbers only NaN is neither above 0
  nor at most 0.
\<close>

lemma Appliance_init_ok:
  "Appliance_init nm pw = Inr (s, p) \<Longrightarrow>
   nm = PStr s \<and> pw = PNum p \<and> s \<noteq> [] \<and> \<not> py_le p (PInt 0)"
  by (cases nm; cases pw) (auto simp: Appliance_init_def split: if_splits)

lemma subclass_init_ok:
  "Iron_init nm pw x = Inr a \<or> TV_init nm pw x = Inr a \<or> WashingMachine_init nm pw x = Inr a
   \<Longrightarrow> Appliance_init nm pw = Inr (name a, power_consumption_watts a) \<and> \<not> is_on a"
  by (auto simp: Iron_init_def TV_init_def WashingMachine_init_def
      split: sum.splits pyval.splits pynum.splits if_splits)

lemma not_le_zero_cases:
  "\<not> py_le p (PInt 0) \<Longrightarrow> py_lt (PInt 0) p \<or> p = PFloat NaN"
  by (cases p; cases "exact_val p") (auto simp: py_le_def py_lt_def fl_le_def)

text \<open>
  C8. The claim holds but for one case that the check of the power misses. The constructor
  tests \<^verbatim>\<open>power_consumption_watts <= 0\<close>, which is false for NaN, so a NaN power is accepted
  by all three variants although it is not a positive number (the message of the check asks
  for one); the appliance then has a power that is not above 0, and it keeps it through
  every operation.
\<close>

theorem C8_nan_power_accepted:
  "Iron_init (PStr ''iron'') (PNum (PFloat NaN)) (PNum (PBool False)) =
     Inr \<lparr>name = ''iron'', power_consumption_watts = PFloat NaN, is_on = False,
          variant = Iron False\<rparr> \<and>
   TV_init (PStr ''tv'') (PNum (PFloat NaN)) (PNum (PInt 55)) =
     Inr \<lparr>name = ''tv'', power_consumption_watts = PFloat NaN, is_on = False,
          variant = TV (PInt 55)\<rparr> \<and>
   WashingMachine_init (PStr ''wm'') (PNum (PFloat NaN)) (PNum (PInt 7)) =
     Inr \<lparr>name = ''wm'', power_consumption_watts = PFloat NaN, is_on = False,
          variant = WashingMachine (PInt 7)\<rparr> \<and>
   \<not> py_lt (PInt 0) (PFloat NaN) \<and>
   power_consumption_watts
     (foldl do_operation
        \<lparr>name = ''iron'', power_consumption_watts = PFloat NaN, is_on = False,
         variant = Iron False\<rparr> [TurnOn, ComputeEnergy (PNum (PInt 2)), TurnOff]) = PFloat NaN"
  using foldl_do_operation_keeps [of
      "\<lparr>name = ''iron'', power_consumption_watts = PFloat NaN, is_on = False,
        variant = Iron False\<rparr>" "[TurnOn, ComputeEnergy (PNum (PInt 2)), TurnOff]"]
  by (simp add: Iron_init_def TV_init_def WashingMachine_init_def Appliance_init_def
      py_le_def py_lt_def fl_le_def del: foldl_Cons)

section \<open>Rounding errors\<close>

lemma round_half_even_error: "\<bar>of_int (round_half_even z) - z\<bar> \<le> 1 / 2"
proof -
  have "of_int \<lfloor>z\<rfloor> \<le> z" "z < of_int \<lfloor>z\<rfloor> + 1" by linarith+
  then show ?thesis
    unfolding round_half_even_def Let_def by (auto simp: abs_le_iff)
qed

lemma exponent_search_cases:
  "\<bar>x\<bar> < 2 powi (int k - 1021) \<Longrightarrow>
   (exponent_search k x = - 1022 \<and> \<bar>x\<bar> < 2 powi (- 1021)) \<or>
   (- 1021 \<le> exponent_search k x \<and> 2 powi (exponent_search k x) \<le> \<bar>x\<bar>)"
proof (induction k)
  case 0
  then show ?case by simp
next
  case (Suc k)
  show ?case
  proof (cases "2 powi (int k - 1021) \<le> \<bar>x\<bar>")
    case True
    then show ?thesis by simp
  next
    case False
    then have "\<bar>x\<bar> < 2 powi (int k - 1021)" by simp
    from Suc.IH [OF this] False show ?thesis by simp
  qed
qed

lemma float_exponent_cases:
  assumes "\<bar>x\<bar> < overflow_threshold"
  shows "(float_exponent x = - 1022 \<and> \<bar>x\<bar> < 2 powi (- 1021)) \<or>
         (- 1021 \<le> float_exponent x \<and> 2 powi (float_exponent x) \<le> \<bar>x\<bar>)"
proof -
  have "overflow_threshold < 2 powi (int 2045 - 1021)"
    by (simp add: overflow_threshold_def)
  with assms have "\<bar>x\<bar> < 2 powi (int 2045 - 1021)" by linarith
  from exponent_search_cases [OF this] show ?thesis
    by (simp only: float_exponent_def)
qed

lemma float_eta_pos: "0 < float_eta"
  unfolding float_eta_def by (rule zero_less_power_int) simp

lemma float_u_pos: "0 < float_u"
  by (simp add: float_u_def)

lemma to_double_error:
  assumes "to_double x = Finite y"
  shows "\<bar>y - x\<bar> \<le> float_u * \<bar>x\<bar> + float_eta"
proof -
  from assms have lt: "\<bar>x\<bar> < overflow_threshold"
    by (auto simp: to_double_def split: if_splits)
  define e where "e = float_exponent x"
  define q :: real where "q = 2 powi (e - 52)"
  have q: "0 < q" by (simp add: q_def)
  from assms lt have y: "y = of_int (round_half_even (x / q)) * q"
    by (simp add: to_double_def Let_def q_def e_def)
  have "y - x = (of_int (round_half_even (x / q)) - x / q) * q"
    using q by (simp add: y left_diff_distrib)
  then have "\<bar>y - x\<bar> = \<bar>of_int (round_half_even (x / q)) - x / q\<bar> * q"
    using q by (simp add: abs_mult)
  also have "\<dots> \<le> (1 / 2) * q"
    using q by (intro mult_right_mono round_half_even_error) simp
  finally have half: "\<bar>y - x\<bar> \<le> q / 2" by simp
  have q2: "q / 2 = 2 powi (e - 53)"
  proof -
    have "(2::real) powi (e - 52) = 2 powi (e - 53) * 2 powi 1"
      by (subst power_int_add [symmetric]) simp_all
    then show ?thesis by (simp add: q_def)
  qed
  from float_exponent_cases [OF lt] show ?thesis
  proof
    assume "float_exponent x = - 1022 \<and> \<bar>x\<bar> < 2 powi (- 1021)"
    then have "e = - 1022" by (simp add: e_def)
    then have "e - 53 = - 1075" by simp
    with q2 have "q / 2 = float_eta" by (simp only: float_eta_def)
    moreover have "0 \<le> float_u * \<bar>x\<bar>" using float_u_pos by simp
    ultimately show ?thesis using half by linarith
  next
    assume "- 1021 \<le> float_exponent x \<and> 2 powi (float_exponent x) \<le> \<bar>x\<bar>"
    then have le: "2 powi e \<le> \<bar>x\<bar>" by (simp add: e_def)
    have "(2::real) powi (e - 53) = 2 powi e * 2 powi (- 53)"
      by (subst power_int_add [symmetric]) simp_all
    also have "\<dots> = float_u * 2 powi e"
    proof -
      have "(2::real) powi (- 53) = float_u"
        by (simp add: float_u_def field_simps)
      then show ?thesis by (simp only: mult.commute)
    qed
    also have "\<dots> \<le> float_u * \<bar>x\<bar>"
      using le float_u_pos by (intro mult_left_mono) simp_all
    finally have "q / 2 \<le> float_u * \<bar>x\<bar>" by (simp add: q2)
    moreover have "0 \<le> float_eta" using float_eta_pos by simp
    ultimately show ?thesis using half by linarith
  qed
qed

lemma py_round_error:
  assumes "py_round (Finite x) n = Finite y"
  shows "\<bar>y - x\<bar> \<le> 1 / (2 * 10 ^ n) + float_u * (\<bar>x\<bar> + 1 / (2 * 10 ^ n)) + float_eta"
proof -
  define d :: real where "d = of_int (round_half_even (x * 10 ^ n)) / 10 ^ n"
  have p: "(0::real) < 10 ^ n" by simp
  have "d - x = (of_int (round_half_even (x * 10 ^ n)) - x * 10 ^ n) / 10 ^ n"
    by (simp add: d_def diff_divide_distrib)
  then have "\<bar>d - x\<bar> = \<bar>of_int (round_half_even (x * 10 ^ n)) - x * 10 ^ n\<bar> / 10 ^ n"
    by (simp add: abs_divide)
  also have "\<dots> \<le> (1 / 2) / 10 ^ n"
    by (rule divide_right_mono [OF round_half_even_error]) simp
  finally have dx: "\<bar>d - x\<bar> \<le> 1 / (2 * 10 ^ n)" by simp
  then have "\<bar>d\<bar> \<le> \<bar>x\<bar> + 1 / (2 * 10 ^ n)" by linarith
  then have ud: "float_u * \<bar>d\<bar> \<le> float_u * (\<bar>x\<bar> + 1 / (2 * 10 ^ n))"
    using float_u_pos by (intro mult_left_mono) simp_all
  from assms have "to_double d = Finite y" by (simp add: d_def)
  then have "\<bar>y - d\<bar> \<le> float_u * \<bar>d\<bar> + float_eta" by (rule to_double_error)
  with dx ud show ?thesis by linarith
qed

lemma fl_add_Finite:
  "fl_add a b = Finite z \<Longrightarrow> \<exists>x y. a = Finite x \<and> b = Finite y \<and> to_double (x + y) = Finite z"
  by (cases a; cases b) (auto simp: fl_add_def split: if_splits)

lemma foldl_fl_add_start:
  "foldl fl_add a fs = Finite y \<Longrightarrow> \<exists>s. a = Finite s"
proof (induction fs arbitrary: a)
  case Nil
  then show ?case by simp
next
  case (Cons f fs)
  then obtain s where "fl_add a f = Finite s" by fastforce
  then show ?case by (auto dest: fl_add_Finite)
qed

lemma foldl_fl_add_all_Finite:
  "foldl fl_add a fs = Finite y \<Longrightarrow> \<exists>xs. fs = map Finite xs"
proof (induction fs arbitrary: a)
  case Nil
  then show ?case by simp
next
  case (Cons f fs)
  from Cons.prems have l: "foldl fl_add (fl_add a f) fs = Finite y" by simp
  from foldl_fl_add_start [OF l] obtain s where "fl_add a f = Finite s" by blast
  then obtain x where "f = Finite x" by (auto dest: fl_add_Finite)
  moreover from Cons.IH [OF l] obtain xs where "fs = map Finite xs" by blast
  ultimately have "f # fs = map Finite (x # xs)" by simp
  then show ?case by (rule exI)
qed

lemma float_sum_error:
  assumes "2 * real (length xs) * float_u \<le> 1"
    and "foldl fl_add (Finite s) (map Finite xs) = Finite y"
  shows "\<bar>y - (s + sum_list xs)\<bar>
           \<le> 2 * real (length xs) * float_u * (\<bar>s\<bar> + (\<Sum>x\<leftarrow>xs. \<bar>x\<bar>))
             + 2 * real (length xs) * float_eta"
  using assms
proof (induction xs arbitrary: s)
  case Nil
  then show ?case by simp
next
  case (Cons x xs)
  define m where "m = real (length xs)"
  define a where "a = 2 * m * float_u"
  define W where "W = \<bar>s\<bar> + \<bar>x\<bar>"
  define R where "R = (\<Sum>x\<leftarrow>xs. \<bar>x\<bar>)"
  have m0: "0 \<le> m" by (simp add: m_def)
  have a0: "0 \<le> a" using m0 float_u_pos by (simp add: a_def)
  from Cons.prems(1) have "2 * (m + 1) * float_u \<le> 1"
    by (simp add: m_def algebra_simps)
  then have "2 * m * float_u + 2 * float_u \<le> 1" by (simp add: algebra_simps)
  then have a1: "a \<le> 1" using float_u_pos unfolding a_def by linarith
  have W0: "0 \<le> W" by (simp add: W_def)
  have R0: "0 \<le> R" unfolding R_def by (rule sum_list_nonneg) auto
  from Cons.prems(2) have l: "foldl fl_add (fl_add (Finite s) (Finite x)) (map Finite xs) = Finite y"
    by simp
  from foldl_fl_add_start [OF l] obtain s1 where s1: "fl_add (Finite s) (Finite x) = Finite s1"
    by blast
  then have "to_double (s + x) = Finite s1" by (simp add: fl_add_def)
  then have "\<bar>s1 - (s + x)\<bar> \<le> float_u * \<bar>s + x\<bar> + float_eta" by (rule to_double_error)
  moreover have "float_u * \<bar>s + x\<bar> \<le> float_u * W"
    unfolding W_def using float_u_pos by (intro mult_left_mono) simp_all
  ultimately have e1: "\<bar>s1 - (s + x)\<bar> \<le> float_u * W + float_eta" by linarith
  then have b1: "\<bar>s1\<bar> \<le> W + float_u * W + float_eta" unfolding W_def by linarith
  from l s1 have l1: "foldl fl_add (Finite s1) (map Finite xs) = Finite y" by simp
  have "2 * real (length xs) * float_u \<le> 1"
    using a1 by (simp add: a_def m_def)
  from Cons.IH [OF this l1]
  have ih: "\<bar>y - (s1 + sum_list xs)\<bar> \<le> a * (\<bar>s1\<bar> + R) + 2 * m * float_eta"
    by (simp add: a_def m_def R_def)
  have "a * \<bar>s1\<bar> \<le> a * (W + float_u * W + float_eta)"
    using b1 a0 by (rule mult_left_mono)
  also have "\<dots> = a * W + a * (float_u * W) + a * float_eta"
    by (simp add: algebra_simps)
  also have "\<dots> \<le> a * W + 1 * (float_u * W) + 1 * float_eta"
    using a1 W0 float_u_pos float_eta_pos
    by (intro add_mono mult_right_mono) simp_all
  finally have as1: "a * \<bar>s1\<bar> \<le> a * W + float_u * W + float_eta" by simp
  have ih': "\<bar>y - (s1 + sum_list xs)\<bar> \<le> a * \<bar>s1\<bar> + a * R + 2 * m * float_eta"
    using ih by (simp add: algebra_simps)
  have "\<bar>y - (s + sum_list (x # xs))\<bar> \<le> \<bar>y - (s1 + sum_list xs)\<bar> + \<bar>s1 - (s + x)\<bar>"
    by simp
  with ih' as1 e1
  have "\<bar>y - (s + sum_list (x # xs))\<bar>
      \<le> a * W + a * R + 2 * (float_u * W) + 2 * m * float_eta + 2 * float_eta"
    by linarith
  also have "\<dots> \<le> a * W + a * R + 2 * (float_u * W) + 2 * (float_u * R)
      + 2 * m * float_eta + 2 * float_eta"
    using R0 float_u_pos by simp
  also have "\<dots> = 2 * (m + 1) * float_u * (W + R) + 2 * (m + 1) * float_eta"
    by (simp add: a_def algebra_simps)
  finally show ?case
    by (simp add: m_def W_def R_def algebra_simps)
qed

lemma float_eta_le_u: "float_eta \<le> float_u / 2"
proof -
  have "(2::real) powi (- 1075) \<le> 2 powi (- 54)"
    by (intro power_int_increasing) simp_all
  also have "\<dots> = float_u / 2" by (simp add: float_u_def)
  finally show ?thesis by (simp only: float_eta_def)
qed

lemma float_u_le_1: "float_u \<le> 1"
  by (simp add: float_u_def)

lemma products_error:
  assumes "0 \<le> t" and "list_all2 (\<lambda>x c. to_double (x * t) = Finite c) xs cs"
  shows "\<bar>sum_list cs - t * sum_list xs\<bar>
           \<le> float_u * (t * (\<Sum>x\<leftarrow>xs. \<bar>x\<bar>)) + real (length xs) * float_eta \<and>
         (\<Sum>c\<leftarrow>cs. \<bar>c\<bar>)
           \<le> t * (\<Sum>x\<leftarrow>xs. \<bar>x\<bar>) + float_u * (t * (\<Sum>x\<leftarrow>xs. \<bar>x\<bar>))
             + real (length xs) * float_eta"
  using assms(2)
proof (induction rule: list_all2_induct)
  case Nil
  show ?case by simp
next
  case (Cons x xs c cs)
  from Cons(1) have "\<bar>c - x * t\<bar> \<le> float_u * \<bar>x * t\<bar> + float_eta"
    by (rule to_double_error)
  moreover have "\<bar>x * t\<bar> = t * \<bar>x\<bar>" using assms(1) by (simp add: abs_mult)
  ultimately have e: "\<bar>c - t * x\<bar> \<le> float_u * (t * \<bar>x\<bar>) + float_eta"
    by (simp add: mult.commute)
  then have b: "\<bar>c\<bar> \<le> t * \<bar>x\<bar> + float_u * (t * \<bar>x\<bar>) + float_eta"
  proof -
    have "\<bar>t * x\<bar> = t * \<bar>x\<bar>" using assms(1) by (simp add: abs_mult)
    with e show ?thesis by linarith
  qed
  from Cons.IH e b show ?case
    by (simp add: algebra_simps) linarith
qed

lemma cost_energy_sums:
  assumes n: "2 * real (length xs) * float_u \<le> 1"
    and t: "0 \<le> t"
    and Se: "foldl fl_add (Finite 0) (map Finite xs) = Finite Se"
    and Sc: "foldl fl_add (Finite 0) (map (\<lambda>x. fl_mul (Finite x) (Finite t)) xs) = Finite Sc"
  defines "A \<equiv> (\<Sum>x\<leftarrow>xs. \<bar>x\<bar>)"
  defines "N \<equiv> real (length xs) * float_eta"
  shows "\<bar>Sc - t * Se\<bar>
           \<le> (4 * real (length xs) + 2) * float_u * (t * A) + (4 + 2 * t) * N"
    and "\<bar>Se\<bar> \<le> 2 * A + 2 * N"
    and "\<bar>Sc\<bar> \<le> 4 * (t * A) + 4 * N"
proof -
  define a where "a = 2 * real (length xs) * float_u"
  define T where "T = t * A"
  have A0: "0 \<le> A" unfolding A_def by (rule sum_list_nonneg) auto
  have T0: "0 \<le> T" unfolding T_def using t A0 by simp
  have N0: "0 \<le> N" unfolding N_def using float_eta_pos by simp
  have a0: "0 \<le> a" unfolding a_def using float_u_pos by simp
  have a1: "a \<le> 1" unfolding a_def by (rule n)
  have u0: "0 \<le> float_u" using float_u_pos by simp
  have u1: "float_u \<le> 1" by (rule float_u_le_1)
  from foldl_fl_add_all_Finite [OF Sc] obtain cs
    where cs: "map (\<lambda>x. fl_mul (Finite x) (Finite t)) xs = map Finite cs" by blast
  then have len: "length cs = length xs" by (metis length_map)
  have rel: "list_all2 (\<lambda>x c. to_double (x * t) = Finite c) xs cs"
  proof (rule list_all2_all_nthI)
    show "length xs = length cs" using len by simp
  next
    fix i assume i: "i < length xs"
    from cs have "map (\<lambda>x. fl_mul (Finite x) (Finite t)) xs ! i = map Finite cs ! i" by simp
    with i len show "to_double (xs ! i * t) = Finite (cs ! i)"
      by (simp add: fl_mul_def)
  qed
  from products_error [OF t rel]
  have E2: "\<bar>sum_list cs - t * sum_list xs\<bar> \<le> float_u * T + N"
    and E3: "(\<Sum>c\<leftarrow>cs. \<bar>c\<bar>) \<le> T + float_u * T + N"
    by (simp_all add: T_def A_def N_def)
  from float_sum_error [OF n Se]
  have E1: "\<bar>Se - sum_list xs\<bar> \<le> a * A + 2 * N"
    by (simp add: a_def A_def N_def algebra_simps)
  from n len have n': "2 * real (length cs) * float_u \<le> 1" by simp
  from Sc cs have Sc': "foldl fl_add (Finite 0) (map Finite cs) = Finite Sc" by simp
  from float_sum_error [OF n' Sc']
  have "\<bar>Sc - sum_list cs\<bar> \<le> a * (\<Sum>c\<leftarrow>cs. \<bar>c\<bar>) + 2 * N"
    by (simp add: a_def N_def len algebra_simps)
  moreover have "a * (\<Sum>c\<leftarrow>cs. \<bar>c\<bar>) \<le> a * (T + float_u * T + N)"
    using E3 a0 by (rule mult_left_mono)
  moreover have "a * (T + float_u * T + N) = a * T + a * (float_u * T) + a * N"
    by (simp add: algebra_simps)
  moreover have "a * (float_u * T) \<le> 1 * (float_u * T)"
    using a1 u0 T0 by (intro mult_right_mono) simp_all
  moreover have "a * N \<le> 1 * N"
    using a1 N0 by (intro mult_right_mono) simp_all
  ultimately have E4: "\<bar>Sc - sum_list cs\<bar> \<le> a * T + float_u * T + 3 * N" by linarith
  have "t * \<bar>Se - sum_list xs\<bar> \<le> t * (a * A + 2 * N)"
    using E1 t by (rule mult_left_mono)
  moreover have "t * \<bar>Se - sum_list xs\<bar> = \<bar>t * Se - t * sum_list xs\<bar>"
    using t by (simp add: abs_mult flip: right_diff_distrib)
  moreover have "t * (a * A + 2 * N) = a * T + 2 * (t * N)"
    by (simp add: T_def algebra_simps)
  ultimately have E5: "\<bar>t * Se - t * sum_list xs\<bar> \<le> a * T + 2 * (t * N)" by simp
  have "\<bar>Sc - t * Se\<bar> \<le> \<bar>Sc - sum_list cs\<bar> + \<bar>sum_list cs - t * sum_list xs\<bar>
      + \<bar>t * Se - t * sum_list xs\<bar>" by linarith
  with E4 E2 E5 have "\<bar>Sc - t * Se\<bar> \<le> 2 * (a * T) + 2 * (float_u * T) + 4 * N + 2 * (t * N)"
    by linarith
  also have "\<dots> = (4 * real (length xs) + 2) * float_u * (t * A) + (4 + 2 * t) * N"
    by (simp add: a_def T_def algebra_simps)
  finally show "\<bar>Sc - t * Se\<bar>
           \<le> (4 * real (length xs) + 2) * float_u * (t * A) + (4 + 2 * t) * N" .
  have "\<bar>sum_list xs\<bar> \<le> A" unfolding A_def by (rule sum_list_abs)
  moreover have "a * A \<le> 1 * A" using a1 A0 by (intro mult_right_mono) simp_all
  ultimately show "\<bar>Se\<bar> \<le> 2 * A + 2 * N" using E1 by linarith
  have "\<bar>sum_list cs\<bar> \<le> (\<Sum>c\<leftarrow>cs. \<bar>c\<bar>)" by (rule sum_list_abs)
  moreover have "a * T \<le> 1 * T" using a1 T0 by (intro mult_right_mono) simp_all
  moreover have "float_u * T \<le> 1 * T" using u1 T0 by (intro mult_right_mono) simp_all
  ultimately have "\<bar>Sc\<bar> \<le> 4 * T + 4 * N" using E4 E3 by linarith
  then show "\<bar>Sc\<bar> \<le> 4 * (t * A) + 4 * N" by (simp add: T_def)
qed

lemma py_round_Finite: "py_round f n = Finite y \<Longrightarrow> \<exists>x. f = Finite x"
  by (cases f) simp_all

lemma rounded_totals_bound:
  assumes n: "real (length xs) \<le> 2 ^ 52"
    and t: "0 \<le> t"
    and K: "py_round (foldl fl_add (Finite 0) (map Finite xs)) 3 = Finite K"
    and C: "py_round (foldl fl_add (Finite 0) (map (\<lambda>x. fl_mul (Finite x) (Finite t)) xs)) 2
              = Finite C"
  shows "\<bar>C - t * K\<bar>
           \<le> 5 / 1000 + t * (5 / 10000)
             + (4 * real (length xs) + 8) / 2 ^ 53 * (1 + t) * (1 + (\<Sum>x\<leftarrow>xs. \<bar>x\<bar>))"
proof -
  define m where "m = real (length xs)"
  define A where "A = (\<Sum>x\<leftarrow>xs. \<bar>x\<bar>)"
  define N where "N = m * float_eta"
  define u where "u = float_u"
  define T where "T = t * A"
  have m0: "0 \<le> m" by (simp add: m_def)
  have u0: "0 \<le> u" unfolding u_def using float_u_pos by simp
  have u1: "u \<le> 1" unfolding u_def by (rule float_u_le_1)
  have A0: "0 \<le> A" unfolding A_def by (rule sum_list_nonneg) auto
  have T0: "0 \<le> T" unfolding T_def using t A0 by simp
  have N0: "0 \<le> N" unfolding N_def using float_eta_pos m0 by simp
  have eta: "float_eta \<le> u / 2" unfolding u_def by (rule float_eta_le_u)
  have eta0: "0 \<le> float_eta" using float_eta_pos by simp
  have n2: "2 * real (length xs) * float_u \<le> 1"
    using n by (simp add: float_u_def)
  from py_round_Finite [OF K] obtain Se
    where Se: "foldl fl_add (Finite 0) (map Finite xs) = Finite Se" by blast
  from py_round_Finite [OF C] obtain Sc
    where Sc: "foldl fl_add (Finite 0) (map (\<lambda>x. fl_mul (Finite x) (Finite t)) xs) = Finite Sc"
    by blast
  from cost_energy_sums [OF n2 t Se Sc]
  have G1: "\<bar>Sc - t * Se\<bar> \<le> (4 * m + 2) * u * T + (4 + 2 * t) * N"
    and G2: "\<bar>Se\<bar> \<le> 2 * A + 2 * N"
    and G3: "\<bar>Sc\<bar> \<le> 4 * T + 4 * N"
    by (simp_all add: m_def A_def N_def u_def T_def)
  from K Se have "py_round (Finite Se) 3 = Finite K" by simp
  from py_round_error [OF this]
  have F2: "\<bar>K - Se\<bar> \<le> 1 / 2000 + u * (\<bar>Se\<bar> + 1 / 2000) + float_eta"
    by (simp add: u_def)
  from C Sc have "py_round (Finite Sc) 2 = Finite C" by simp
  from py_round_error [OF this]
  have F1: "\<bar>C - Sc\<bar> \<le> 1 / 200 + u * (\<bar>Sc\<bar> + 1 / 200) + float_eta"
    by (simp add: u_def)
  define uT where "uT = u * T"
  define uA where "uA = u * A"
  define uN where "uN = u * N"
  define tu where "tu = t * u"
  define mu where "mu = m * u"
  define mtu where "mtu = m * (t * u)"
  define muT where "muT = m * (u * T)"
  define tN where "tN = t * N"
  define tuN where "tuN = t * (u * N)"
  define teta where "teta = t * float_eta"
  have pos: "0 \<le> uT" "0 \<le> uA" "0 \<le> uN" "0 \<le> tu" "0 \<le> mu" "0 \<le> mtu" "0 \<le> muT"
    "0 \<le> tN" "0 \<le> tuN" "0 \<le> teta"
    using u0 T0 A0 N0 t m0 eta0
    by (simp_all add: uT_def uA_def uN_def tu_def mu_def mtu_def muT_def tN_def tuN_def teta_def)
  have uN_le: "uN \<le> N"
    unfolding uN_def using mult_right_mono [OF u1 N0] by simp
  have tuN_le: "tuN \<le> tN"
    unfolding tuN_def tN_def using mult_left_mono [OF uN_le [unfolded uN_def] t] by simp
  have N_le: "N \<le> mu / 2"
    unfolding N_def mu_def using mult_left_mono [OF eta m0] by simp
  have tN_le: "tN \<le> mtu / 2"
    unfolding tN_def mtu_def using mult_left_mono [OF N_le [unfolded mu_def] t]
    by (simp add: algebra_simps)
  have teta_le: "teta \<le> tu / 2"
    unfolding teta_def tu_def using mult_left_mono [OF eta t] by simp
  have "u * (\<bar>Sc\<bar> + 1 / 200) \<le> u * (4 * T + 4 * N + 1 / 200)"
    using G3 u0 by (intro mult_left_mono) simp_all
  also have "\<dots> = 4 * uT + 4 * uN + u / 200"
    by (simp add: uT_def uN_def algebra_simps)
  finally have H1: "\<bar>C - Sc\<bar> \<le> 1 / 200 + 4 * uT + 4 * uN + u / 200 + float_eta"
    using F1 by linarith
  have "u * (\<bar>Se\<bar> + 1 / 2000) \<le> u * (2 * A + 2 * N + 1 / 2000)"
    using G2 u0 by (intro mult_left_mono) simp_all
  also have "\<dots> = 2 * uA + 2 * uN + u / 2000"
    by (simp add: uA_def uN_def algebra_simps)
  finally have "\<bar>K - Se\<bar> \<le> 1 / 2000 + 2 * uA + 2 * uN + u / 2000 + float_eta"
    using F2 by linarith
  then have "t * \<bar>K - Se\<bar> \<le> t * (1 / 2000 + 2 * uA + 2 * uN + u / 2000 + float_eta)"
    using t by (rule mult_left_mono)
  also have "\<dots> = t / 2000 + 2 * uT + 2 * tuN + tu / 2000 + teta"
    by (simp add: uA_def uT_def T_def uN_def tuN_def tu_def teta_def algebra_simps)
  finally have H2a: "t * \<bar>K - Se\<bar> \<le> t / 2000 + 2 * uT + 2 * tuN + tu / 2000 + teta" .
  have "t * \<bar>K - Se\<bar> = \<bar>t * Se - t * K\<bar>"
    using t by (simp add: abs_mult abs_minus_commute flip: right_diff_distrib)
  with H2a have H2: "\<bar>t * Se - t * K\<bar> \<le> t / 2000 + 2 * uT + 2 * tuN + tu / 2000 + teta"
    by simp
  have H3: "\<bar>Sc - t * Se\<bar> \<le> 4 * muT + 2 * uT + 4 * N + 2 * tN"
    using G1 by (simp add: muT_def uT_def tN_def algebra_simps)
  have "\<bar>C - t * K\<bar> \<le> \<bar>C - Sc\<bar> + \<bar>Sc - t * Se\<bar> + \<bar>t * Se - t * K\<bar>" by linarith
  with H1 H2 H3 uN_le tuN_le N_le tN_le teta_le eta pos u0
  have "\<bar>C - t * K\<bar> \<le> 1 / 200 + t / 2000 + 4 * muT + 8 * uT
      + 4 * mu + 2 * mtu + u + tu"
    by linarith
  also have "\<dots> \<le> 1 / 200 + t / 2000 + 4 * muT + 8 * uT
      + 4 * mu + 4 * mtu + 8 * u + 8 * tu + (4 * m + 8) * uA"
  proof -
    have "0 \<le> (4 * m + 8) * uA" using m0 pos by simp
    with pos u0 show ?thesis by linarith
  qed
  also have "\<dots> = 5 / 1000 + t * (5 / 10000) + (4 * m + 8) * u * (1 + t) * (1 + A)"
    by (simp add: muT_def uT_def mu_def mtu_def tu_def uA_def T_def algebra_simps)
  finally show ?thesis
    by (simp add: m_def u_def A_def float_u_def)
qed

lemma calculate_total_Inr_period:
  assumes "fst (calculate_total_consumption_and_cost c period) = Inr r"
  shows "\<exists>p. period = PNum p \<and> \<not> py_lt p (PInt 0)"
  using assms
  by (cases period) (auto simp: calculate_total_consumption_and_cost_def split: if_splits)

lemma calculate_total_eq:
  fixes c :: energy_calculator and p :: pynum
  defines "energy_of \<equiv> \<lambda>a. fst (calculate_energy_consumption a (PNum p))"
  defines "cost_of \<equiv> \<lambda>a. case energy_of a of Inl e \<Rightarrow> Inl e
                                | Inr k \<Rightarrow> float_mul k (tariff_kwh c)"
  defines "on \<equiv> filter is_on (appliances c)"
  assumes p: "\<not> py_lt p (PInt 0)"
  shows "fst (calculate_total_consumption_and_cost c (PNum p)) =
         (if \<exists>a\<in>set on. isl (cost_of a) then Inl OverflowError
          else Inr \<lparr>total_consumption_kwh =
                     py_round (foldl fl_add (Finite 0) (map (projr \<circ> energy_of) on)) 3,
                   total_cost =
                     py_round (foldl fl_add (Finite 0) (map (projr \<circ> cost_of) on)) 2,
                   details =
                     map (\<lambda>a. if is_on a
                             then \<lparr>entry_name = name a,
                                   consumption_kwh = py_round (projr (energy_of a)) 3,
                                   cost = py_round (projr (cost_of a)) 2\<rparr>
                             else \<lparr>entry_name = name a, consumption_kwh = Finite 0,
                                   cost = Finite 0\<rparr>)
                       (appliances c)\<rparr>)"
  using p unfolding energy_of_def cost_of_def on_def
  by (auto simp: calculate_total_consumption_and_cost_def consumption_loop_eq [OF p])

text \<open>
  C4 (as stated). The claim gives a tolerance of 1e-2 for any tariff. With a tariff of 1000,
  one appliance of 1 W that is on and a period of a quarter of an hour, the energy rounds to
  0.0 and the cost to 0.25: tariff times total energy is 0, a quarter away from the total
  cost.
\<close>

theorem C4_tolerance_counterexample:
  "fst (calculate_total_consumption_and_cost
          \<lparr>appliances =
             [\<lparr>name = ''tv'', power_consumption_watts = PInt 1, is_on = True,
               variant = TV (PInt 55)\<rparr>],
           tariff_kwh = PInt 1000\<rparr> (PNum (PFloat (Finite (1 / 4))))) =
     Inr \<lparr>total_consumption_kwh = Finite 0, total_cost = Finite (1 / 4),
           details = [\<lparr>entry_name = ''tv'', consumption_kwh = Finite 0,
                       cost = Finite (1 / 4)\<rparr>]\<rparr> \<and>
   \<not> \<bar>(1 / 4 :: real) - 1000 * 0\<bar> \<le> 1 / 100"
proof -
  let ?tv = "\<lparr>name = ''tv'', power_consumption_watts = PInt 1, is_on = True,
               variant = TV (PInt 55)\<rparr>"
  let ?k = "Finite (1152921504606847 / 2 ^ 62)"
  have q: "py_truediv (PInt 1) (PInt 1000) = Inr (Finite (1152921504606847 / 2 ^ 60))"
    by (simp add: py_truediv_1000 overflow_threshold_def to_double_normal [of "- 10"]
        round_half_even_def)
  have m: "float_mul (Finite (1152921504606847 / 2 ^ 60)) (PFloat (Finite (1 / 4))) = Inr ?k"
    by (simp add: float_mul_def fl_mul_def to_double_normal [of "- 12"] round_half_even_def)
  have e: "calculate_energy_consumption ?tv (PNum (PFloat (Finite (1 / 4)))) = (Inr ?k, ?tv)"
    using q m by (simp add: calculate_energy_consumption_eq py_lt_def)
  have c: "float_mul ?k (PInt 1000) = Inr (Finite (1 / 4))"
    by (simp add: float_mul_def int_to_float_1000 fl_mul_def to_double_normal [of "- 2"]
        round_half_even_def)
  have s1: "fl_add (Finite 0) ?k = ?k"
    by (simp add: fl_add_def to_double_normal [of "- 12"] round_half_even_def)
  have s2: "fl_add (Finite 0) (Finite (1 / 4)) = Finite (1 / 4)"
    by (simp add: fl_add_def to_double_normal [of "- 2"] round_half_even_def)
  have r3: "py_round ?k 3 = Finite 0"
    by (simp add: round_half_even_def to_double_0)
  have r2: "py_round (Finite (1 / 4)) 2 = Finite (1 / 4)"
    by (simp add: round_half_even_def to_double_normal [of "- 2"])
  show ?thesis
    using e c s1 s2 r3 r2
    by (simp add: calculate_total_consumption_and_cost_def py_lt_def)
qed

text \<open>
  C4 (amended). Let the call return finite totals, with a tariff whose float value t is not
  negative, n appliances on (at most \<open>2 ^ 52\<close>) and E the sum of the magnitudes of their
  energies. Then the total cost differs from t times the total energy by at most
  0.005 + 0.0005 * t, the two decimal roundings, plus (4 * n + 8) / 2 ^ 53 * (1 + t) * (1 + E)
  for the rounding of the float arithmetic. The tolerance of 1e-2 follows for a tariff up to
  9 with at most 1000 appliances on and E up to 10 ^ 6; it does not hold for every tariff.
\<close>

theorem C4_cost_within_rounding:
  assumes r: "fst (calculate_total_consumption_and_cost c period) = Inr r"
    and tf: "to_float (tariff_kwh c) = Inr (Finite t)"
    and t: "0 \<le> t"
    and C: "total_cost r = Finite C"
    and K: "total_consumption_kwh r = Finite K"
    and len: "length (filter is_on (appliances c)) \<le> 2 ^ 52"
  shows "(let on = filter is_on (appliances c);
              n = real (length on);
              E = (\<Sum>a\<leftarrow>on. \<bar>fl_val (projr (fst (calculate_energy_consumption a period)))\<bar>)
          in \<bar>C - t * K\<bar> \<le> 5 / 1000 + t * (5 / 10000) + (4 * n + 8) / 2 ^ 53 * (1 + t) * (1 + E) \<and>
             (t \<le> 9 \<and> n \<le> 1000 \<and> E \<le> 10 ^ 6 \<longrightarrow> \<bar>C - t * K\<bar> \<le> 1 / 100))"
proof -
  from calculate_total_Inr_period [OF r] obtain p
    where period: "period = PNum p" and p: "\<not> py_lt p (PInt 0)" by blast
  define energy_of where "energy_of = (\<lambda>a. fst (calculate_energy_consumption a (PNum p)))"
  define cost_of where "cost_of = (\<lambda>a. case energy_of a of Inl e \<Rightarrow> Inl e
                                | Inr k \<Rightarrow> float_mul k (tariff_kwh c))"
  define on where "on = filter is_on (appliances c)"
  define es where "es = map (projr \<circ> energy_of) on"
  from r have r': "fst (calculate_total_consumption_and_cost c (PNum p)) = Inr r"
    by (simp add: period)
  have noerr: "\<not> (\<exists>a\<in>set on. isl (cost_of a))"
    using r' unfolding calculate_total_eq [OF p] on_def cost_of_def energy_of_def
    by (auto split: if_splits)
  with r' have req: "r = \<lparr>total_consumption_kwh = py_round (foldl fl_add (Finite 0) es) 3,
                   total_cost =
                     py_round (foldl fl_add (Finite 0) (map (projr \<circ> cost_of) on)) 2,
                   details =
                     map (\<lambda>a. if is_on a
                             then \<lparr>entry_name = name a,
                                   consumption_kwh = py_round (projr (energy_of a)) 3,
                                   cost = py_round (projr (cost_of a)) 2\<rparr>
                             else \<lparr>entry_name = name a, consumption_kwh = Finite 0,
                                   cost = Finite 0\<rparr>)
                       (appliances c)\<rparr>"
    unfolding calculate_total_eq [OF p] on_def cost_of_def energy_of_def es_def
    by (auto split: if_splits)
  have costs: "map (projr \<circ> cost_of) on = map (\<lambda>f. fl_mul f (Finite t)) es"
  proof -
    have "projr (cost_of a) = fl_mul (projr (energy_of a)) (Finite t)" if "a \<in> set on" for a
    proof -
      from noerr that have "\<not> isl (cost_of a)" by blast
      then show ?thesis
        by (cases "energy_of a") (simp_all add: cost_of_def float_mul_def tf)
    qed
    then show ?thesis by (simp add: es_def)
  qed
  from K req have K': "py_round (foldl fl_add (Finite 0) es) 3 = Finite K" by simp
  from py_round_Finite [OF K'] obtain Se where "foldl fl_add (Finite 0) es = Finite Se" by blast
  from foldl_fl_add_all_Finite [OF this] obtain xs where xs: "es = map Finite xs" by blast
  have lenxs: "length xs = length on"
    using xs by (metis es_def length_map)
  from K' xs have K'': "py_round (foldl fl_add (Finite 0) (map Finite xs)) 3 = Finite K"
    by simp
  from C req costs xs
  have C'': "py_round (foldl fl_add (Finite 0) (map (\<lambda>x. fl_mul (Finite x) (Finite t)) xs)) 2
      = Finite C"
    by (simp add: comp_def)
  have n: "real (length xs) \<le> 2 ^ 52"
    using len lenxs unfolding on_def by (metis of_nat_le_iff of_nat_numeral of_nat_power)
  have "map (\<lambda>a. \<bar>fl_val (projr (energy_of a))\<bar>) on = map (\<lambda>f. \<bar>fl_val f\<bar>) es"
    by (simp add: es_def)
  also have "\<dots> = map abs xs" by (simp add: xs comp_def)
  finally have E: "(\<Sum>a\<leftarrow>on. \<bar>fl_val (projr (energy_of a))\<bar>) = (\<Sum>x\<leftarrow>xs. \<bar>x\<bar>)"
    by simp
  define n' where "n' = real (length on)"
  define E' where "E' = (\<Sum>a\<leftarrow>on. \<bar>fl_val (projr (energy_of a))\<bar>)"
  from rounded_totals_bound [OF n t K'' C'']
  have main: "\<bar>C - t * K\<bar> \<le> 5 / 1000 + t * (5 / 10000) + (4 * n' + 8) / 2 ^ 53 * (1 + t) * (1 + E')"
    by (simp add: E lenxs n'_def E'_def)
  have cor: "\<bar>C - t * K\<bar> \<le> 1 / 100" if "t \<le> 9" "n' \<le> 1000" "E' \<le> 10 ^ 6"
  proof -
    have n0: "0 \<le> n'" by (simp add: n'_def)
    have E0: "0 \<le> E'" unfolding E'_def by (rule sum_list_nonneg) auto
    have "(4 * n' + 8) * (1 + t) \<le> 4008 * 10"
      using that n0 t by (intro mult_mono) simp_all
    then have "(4 * n' + 8) * (1 + t) * (1 + E') \<le> 4008 * 10 * (1 + 10 ^ 6)"
      using that E0 n0 t by (intro mult_mono) simp_all
    then have "(4 * n' + 8) * (1 + t) * (1 + E') / 2 ^ 53 \<le> 4008 * 10 * (1 + 10 ^ 6) / 2 ^ 53"
      by (rule divide_right_mono) simp
    also have "\<dots> \<le> 5 / 10000" by simp
    finally have "(4 * n' + 8) / 2 ^ 53 * (1 + t) * (1 + E') \<le> 5 / 10000" by simp
    with main that(1) show ?thesis by linarith
  qed
  from main cor show ?thesis
    by (simp add: Let_def period n'_def E'_def on_def energy_of_def)
qed

text \<open>
  At 13 W, tariff 10 and half an hour the energy 0.0065 is rounded down to 0.006 and the
  cost 0.065 up to 0.07: the bound holds, and the difference is above 1e-2.
\<close>

theorem C4_cost_within_rounding_witness:
  "fst (calculate_total_consumption_and_cost
          \<lparr>appliances =
             [\<lparr>name = ''lamp'', power_consumption_watts = PInt 13, is_on = True,
               variant = Iron False\<rparr>],
           tariff_kwh = PInt 10\<rparr> (PNum (PFloat (Finite (1 / 2))))) =
     Inr \<lparr>total_consumption_kwh = Finite (3458764513820541 / 2 ^ 59),
           total_cost = Finite (1261007895663739 / 2 ^ 54),
           details = [\<lparr>entry_name = ''lamp'',
                       consumption_kwh = Finite (3458764513820541 / 2 ^ 59),
                       cost = Finite (1261007895663739 / 2 ^ 54)\<rparr>]\<rparr> \<and>
   to_float (PInt 10) = Inr (Finite 10) \<and>
   \<bar>1261007895663739 / 2 ^ 54 - 10 * (3458764513820541 / 2 ^ 59)\<bar>
     \<le> (5 / 1000 + 10 * (5 / 10000)
         + (4 * 1 + 8) / 2 ^ 53 * (1 + 10) * (1 + 7493989779944505 / 2 ^ 60) :: real) \<and>
   \<not> \<bar>1261007895663739 / 2 ^ 54 - 10 * (3458764513820541 / 2 ^ 59)\<bar> \<le> (1 / 100 :: real)"
proof -
  let ?lamp = "\<lparr>name = ''lamp'', power_consumption_watts = PInt 13, is_on = True,
               variant = Iron False\<rparr>"
  let ?c = "\<lparr>appliances = [?lamp], tariff_kwh = PInt 10\<rparr>"
  let ?p = "PNum (PFloat (Finite (1 / 2)))"
  let ?k = "Finite (7493989779944505 / 2 ^ 60)"
  let ?K = "Finite (3458764513820541 / 2 ^ 59)"
  let ?C = "Finite (1261007895663739 / 2 ^ 54)"
  let ?r = "\<lparr>total_consumption_kwh = ?K, total_cost = ?C,
           details = [\<lparr>entry_name = ''lamp'', consumption_kwh = ?K, cost = ?C\<rparr>]\<rparr>"
  have q: "py_truediv (PInt 13) (PInt 1000) = Inr (Finite (7493989779944505 / 2 ^ 59))"
    by (simp add: py_truediv_1000 overflow_threshold_def to_double_normal [of "- 7"]
        round_half_even_def)
  have m: "float_mul (Finite (7493989779944505 / 2 ^ 59)) (PFloat (Finite (1 / 2))) = Inr ?k"
    by (simp add: float_mul_def fl_mul_def to_double_normal [of "- 8"] round_half_even_def)
  have e: "calculate_energy_consumption ?lamp ?p = (Inr ?k, ?lamp)"
    using q m by (simp add: calculate_energy_consumption_eq py_lt_def)
  have ten: "to_float (PInt 10) = Inr (Finite 10)"
    by (simp add: int_to_float_def overflow_threshold_def to_double_normal [of 3]
        round_half_even_def)
  have c: "float_mul ?k (PInt 10) = Inr (Finite (1170935903116329 / 2 ^ 54))"
    using ten
    by (simp add: float_mul_def fl_mul_def to_double_normal [of "- 4"] round_half_even_def)
  have s1: "fl_add (Finite 0) ?k = ?k"
    by (simp add: fl_add_def to_double_normal [of "- 8"] round_half_even_def)
  have s2: "fl_add (Finite 0) (Finite (1170935903116329 / 2 ^ 54)) =
      Finite (1170935903116329 / 2 ^ 54)"
    by (simp add: fl_add_def to_double_normal [of "- 4"] round_half_even_def)
  have r3: "py_round ?k 3 = ?K"
    by (simp add: round_half_even_def to_double_normal [of "- 8"])
  have r2: "py_round (Finite (1170935903116329 / 2 ^ 54)) 2 = ?C"
    by (simp add: round_half_even_def to_double_normal [of "- 4"])
  have r: "fst (calculate_total_consumption_and_cost ?c ?p) = Inr ?r"
    using e c s1 s2 r3 r2
    by (simp add: calculate_total_consumption_and_cost_def py_lt_def)
  have tf: "to_float (tariff_kwh ?c) = Inr (Finite 10)" using ten by simp
  have t: "(0::real) \<le> 10" by simp
  have C: "total_cost ?r = ?C" by simp
  have K: "total_consumption_kwh ?r = ?K" by simp
  have len: "length (filter is_on (appliances ?c)) \<le> 2 ^ 52" by simp
  from C4_cost_within_rounding [OF r tf t C K len]
  have "\<bar>1261007895663739 / 2 ^ 54 - 10 * (3458764513820541 / 2 ^ 59)\<bar>
     \<le> (5 / 1000 + 10 * (5 / 10000)
         + (4 * 1 + 8) / 2 ^ 53 * (1 + 10) * (1 + 7493989779944505 / 2 ^ 60) :: real)"
    using e by (simp add: Let_def)
  moreover have "\<not> \<bar>1261007895663739 / 2 ^ 54 - 10 * (3458764513820541 / 2 ^ 59)\<bar>
      \<le> (1 / 100 :: real)"
    by simp
  ultimately show ?thesis using r ten by simp
qed

section \<open>Reading the record store\<close>

lemma fill_record_dict_row:
  "fill_record_dict (enumerate 0 column_names) (row_tuple r) Map.empty =
   [''id'' \<mapsto> SqlInt (col_id r), ''appliance_name'' \<mapsto> SqlText (col_appliance_name r),
    ''power_consumption_watts'' \<mapsto> col_power_consumption_watts r,
    ''hours_used'' \<mapsto> SqlReal (col_hours_used r),
    ''consumption_kwh'' \<mapsto> SqlReal (col_consumption_kwh r),
    ''cost'' \<mapsto> SqlReal (col_cost r), ''tariff'' \<mapsto> SqlReal (col_tariff r),
    ''timestamp'' \<mapsto> SqlText (col_timestamp r)]"
  by (simp add: column_names_def row_tuple_def)

lemma sorted_desc_timestamps:
  "sorted_wrt (\<lambda>x y. y \<le> x) (map col_timestamp (rev (sort_key col_timestamp rows)))"
  using sorted_sort_key [of col_timestamp rows]
  by (simp add: sorted_wrt_rev flip: rev_map)

text \<open>
  C9. \<^verbatim>\<open>get_all_records\<close> never raises. On a readable table it returns every row, each as
  a dictionary of its eight columns, in descending order of timestamp; on an empty table,
  an unreadable store or a closed connection it returns the empty list.
\<close>

theorem C9_get_all_records:
  "\<not> isl (get_all_records m st) \<and>
   (st = Table [] \<or> st = Unreadable \<or> \<not> connected m \<longrightarrow> get_all_records m st = Inr []) \<and>
   (connected m \<and> st = Table rows \<longrightarrow>
      (\<exists>ordered.
         mset ordered = mset rows \<and>
         sorted_wrt (\<lambda>x y. y \<le> x) (map col_timestamp ordered) \<and>
         get_all_records m st =
           Inr (map (\<lambda>r. [''id'' \<mapsto> SqlInt (col_id r),
                          ''appliance_name'' \<mapsto> SqlText (col_appliance_name r),
                          ''power_consumption_watts'' \<mapsto> col_power_consumption_watts r,
                          ''hours_used'' \<mapsto> SqlReal (col_hours_used r),
                          ''consumption_kwh'' \<mapsto> SqlReal (col_consumption_kwh r),
                          ''cost'' \<mapsto> SqlReal (col_cost r),
                          ''tariff'' \<mapsto> SqlReal (col_tariff r),
                          ''timestamp'' \<mapsto> SqlText (col_timestamp r)]) ordered)))"
proof (intro conjI impI)
  show "\<not> isl (get_all_records m st)"
    by (simp add: get_all_records_def execute_select_all_def split: store.split)
  show "get_all_records m st = Inr []" if "st = Table [] \<or> st = Unreadable \<or> \<not> connected m"
    using that by (auto simp: get_all_records_def execute_select_all_def)
next
  assume a: "connected m \<and> st = Table rows"
  let ?ordered = "rev (sort_key col_timestamp rows)"
  have "mset ?ordered = mset rows" by simp
  moreover have "sorted_wrt (\<lambda>x y. y \<le> x) (map col_timestamp ?ordered)"
    by (rule sorted_desc_timestamps)
  moreover from a have "get_all_records m st =
      Inr (map (\<lambda>r. fill_record_dict (enumerate 0 column_names) (row_tuple r) Map.empty) ?ordered)"
    by (simp add: get_all_records_def execute_select_all_def comp_def)
  ultimately show "\<exists>ordered.
         mset ordered = mset rows \<and>
         sorted_wrt (\<lambda>x y. y \<le> x) (map col_timestamp ordered) \<and>
         get_all_records m st =
           Inr (map (\<lambda>r. [''id'' \<mapsto> SqlInt (col_id r),
                          ''appliance_name'' \<mapsto> SqlText (col_appliance_name r),
                          ''power_consumption_watts'' \<mapsto> col_power_consumption_watts r,
                          ''hours_used'' \<mapsto> SqlReal (col_hours_used r),
                          ''consumption_kwh'' \<mapsto> SqlReal (col_consumption_kwh r),
                          ''cost'' \<mapsto> SqlReal (col_cost r),
                          ''tariff'' \<mapsto> SqlReal (col_tariff r),
                          ''timestamp'' \<mapsto> SqlText (col_timestamp r)]) ordered)"
    unfolding fill_record_dict_row by blast
qed

theorem C9_get_all_records_witness:
  "connected \<lparr>db_name = ''energy_consumption.db'', connected = True\<rparr> \<and>
   map (\<lambda>d. d ''timestamp'')
     (projr (get_all_records \<lparr>db_name = ''energy_consumption.db'', connected = True\<rparr>
        (Table [\<lparr>col_id = 1, col_appliance_name = ''tv'',
                  col_power_consumption_watts = SqlInt 150, col_hours_used = 2,
                  col_consumption_kwh = 3 / 10, col_cost = 5 / 100, col_tariff = 15 / 100,
                  col_timestamp = ''2024-01-01T10:00:00''\<rparr>,
                 \<lparr>col_id = 2, col_appliance_name = ''iron'',
                  col_power_consumption_watts = SqlInt 2000, col_hours_used = 2,
                  col_consumption_kwh = 4, col_cost = 6 / 10, col_tariff = 15 / 100,
                  col_timestamp = ''2024-01-02T09:30:00.250000''\<rparr>]))) =
     [Some (SqlText ''2024-01-02T09:30:00.250000''), Some (SqlText ''2024-01-01T10:00:00'')] \<and>
   get_all_records \<lparr>db_name = ''energy_consumption.db'', connected = True\<rparr> (Table []) = Inr [] \<and>
   get_all_records \<lparr>db_name = ''energy_consumption.db'', connected = True\<rparr> Unreadable = Inr [] \<and>
   get_all_records \<lparr>db_name = ''energy_consumption.db'', connected = False\<rparr> (Table []) = Inr []"
  using C9_get_all_records [of "\<lparr>db_name = ''energy_consumption.db'', connected = True\<rparr>"
      "Table [\<lparr>col_id = 1, col_appliance_name = ''tv'',
                  col_power_consumption_watts = SqlInt 150, col_hours_used = 2,
                  col_consumption_kwh = 3 / 10, col_cost = 5 / 100, col_tariff = 15 / 100,
                  col_timestamp = ''2024-01-01T10:00:00''\<rparr>,
                 \<lparr>col_id = 2, col_appliance_name = ''iron'',
                  col_power_consumption_watts = SqlInt 2000, col_hours_used = 2,
                  col_consumption_kwh = 4, col_cost = 6 / 10, col_tariff = 15 / 100,
                  col_timestamp = ''2024-01-02T09:30:00.250000''\<rparr>]"
      "[\<lparr>col_id = 1, col_appliance_name = ''tv'',
                  col_power_consumption_watts = SqlInt 150, col_hours_used = 2,
                  col_consumption_kwh = 3 / 10, col_cost = 5 / 100, col_tariff = 15 / 100,
                  col_timestamp = ''2024-01-01T10:00:00''\<rparr>,
                 \<lparr>col_id = 2, col_appliance_name = ''iron'',
                  col_power_consumption_watts = SqlInt 2000, col_hours_used = 2,
                  col_consumption_kwh = 4, col_cost = 6 / 10, col_tariff = 15 / 100,
                  col_timestamp = ''2024-01-02T09:30:00.250000''\<rparr>]"]
    C9_get_all_records [of "\<lparr>db_name = ''energy_consumption.db'', connected = True\<rparr>" "Table []"]
    C9_get_all_records [of "\<lparr>db_name = ''energy_consumption.db'', connected = True\<rparr>" Unreadable]
    C9_get_all_records [of "\<lparr>db_name = ''energy_consumption.db'', connected = False\<rparr>" "Table []"]
  by (simp add: get_all_records_def execute_select_all_def row_tuple_def column_names_def)

end
